theory Spec2Isabelle
  imports Complex_Main "HOL-Library.AList"
begin

section \<open>Python values used by the detection server\<close>

text \<open>
  The server is written in Python.  Unbounded integers are \<^typ>\<open>int\<close>, floats are
  \<^typ>\<open>real\<close> (the code only compares, divides and truncates them), strings and byte
  strings are \<^typ>\<open>string\<close>.  A \<open>dict\<close> with integer keys is an association list with
  distinct keys in insertion order: \<open>d[k] = v\<close> overwrites the value of a key that is
  present in place and appends a new key at the end, which is \<^const>\<open>AList.update\<close>;
  \<open>len(d)\<close> is the length of the list and \<open>k in d\<close> is \<open>map_of d k \<noteq> None\<close>.
\<close>

type_synonym 'v dict = "(int \<times> 'v) list"

datatype exn =
    RuntimeError string
  | FileNotFoundError string
  | KeyError string
  | ZeroDivisionError string
  | OtherError string

text \<open>\<open>str(e)\<close>: every exception carries its message.\<close>

definition str_exn :: "exn \<Rightarrow> string" where
  "str_exn e = (case e of
      RuntimeError msg \<Rightarrow> msg
    | FileNotFoundError msg \<Rightarrow> msg
    | KeyError msg \<Rightarrow> msg
    | ZeroDivisionError msg \<Rightarrow> msg
    | OtherError msg \<Rightarrow> msg)"

definition dict_setitem :: "int \<Rightarrow> 'v \<Rightarrow> 'v dict \<Rightarrow> 'v dict" where
  "dict_setitem k v d = AList.update k v d"

definition dict_contains :: "'v dict \<Rightarrow> int \<Rightarrow> bool" where
  "dict_contains d k = (map_of d k \<noteq> None)"

definition dict_get :: "'v dict \<Rightarrow> int \<Rightarrow> 'v \<Rightarrow> 'v" where
  "dict_get d k dflt = (case map_of d k of None \<Rightarrow> dflt | Some v \<Rightarrow> v)"

definition dict_values :: "'v dict \<Rightarrow> 'v list" where
  "dict_values d = map snd d"

text \<open>\<open>int(x)\<close> on a float truncates toward zero; \<open>str(i)\<close> prints decimal digits.\<close>

definition py_int :: "real \<Rightarrow> int" where
  "py_int x = (if x < 0 then \<lceil>x\<rceil> else \<lfloor>x\<rfloor>)"

definition digit_char :: "nat \<Rightarrow> char" where
  "digit_char n = ''0123456789'' ! n"

fun str_nat :: "nat \<Rightarrow> string" where
  "str_nat n = (if n < 10 then [digit_char n] else str_nat (n div 10) @ [digit_char (n mod 10)])"

declare str_nat.simps [simp del]

definition str_int :: "int \<Rightarrow> string" where
  "str_int i = (if i < 0 then CHR ''-'' # str_nat (nat (- i)) else str_nat (nat i))"

text \<open>\<open>x or dflt\<close> on an optional float: \<open>None\<close> and \<open>0.0\<close> are falsy, every other float
  (a negative one too) is truthy.\<close>

definition py_or :: "real option \<Rightarrow> real \<Rightarrow> real" where
  "py_or x dflt = (case x of None \<Rightarrow> dflt | Some t \<Rightarrow> if t = 0 then dflt else t)"


section \<open>Configuration (\<open>app/config.py\<close>)\<close>

record model_config =
  model_dir :: string
  model_name :: string
  watch_interval :: real
  default_confidence :: real
  default_iou :: real
  input_size :: int

definition ModelConfig_default :: model_config where
  "ModelConfig_default =
     \<lparr>model_dir = ''models'', model_name = ''best.pt'', watch_interval = 5,
      default_confidence = 1 / 2, default_iou = 45 / 100, input_size = 640\<rparr>"

definition model_path :: "model_config \<Rightarrow> string" where
  "model_path c = model_dir c @ ''/'' @ model_name c"


section \<open>The detector (\<open>app/detector.py\<close>)\<close>

text \<open>
  A loaded \<open>YOLO\<close> object is opaque: the model keeps its identity (the object
  reference) and its intrinsic \<open>names\<close> table.
\<close>

record yolo =
  obj_id :: nat
  names :: "string dict"

record detection_result =
  class_id :: int
  class_name :: string
  confidence :: real
  x1 :: real
  y1 :: real
  x2 :: real
  y2 :: real

record inference_result =
  detections :: "detection_result list"
  inference_time_ms :: real
  model_version :: string

text \<open>
  The fields of \<open>Detector\<close>: \<open>self._model\<close>, \<open>self._model_version\<close> and
  \<open>self._class_mapping\<close> (class id to \<open>(sku_id, name)\<close>).  The lock \<open>self._model_lock\<close>
  is part of the thread model further down.
\<close>

record detector =
  config :: model_config
  self_model :: "yolo option"
  self_model_version :: string
  self_class_mapping :: "(string \<times> string) dict"

definition Detector_init :: "model_config \<Rightarrow> detector" where
  "Detector_init cfg =
     \<lparr>config = cfg, self_model = None, self_model_version = ''unknown'',
      self_class_mapping = []\<rparr>"

definition model_loaded :: "detector \<Rightarrow> bool" where
  "model_loaded d = (self_model d \<noteq> None)"

definition class_names :: "detector \<Rightarrow> string list" where
  "class_names d = (case self_model d of None \<Rightarrow> [] | Some m \<Rightarrow> dict_values (names m))"

definition update_class_mapping :: "(string \<times> string) dict \<Rightarrow> detector \<Rightarrow> detector" where
  "update_class_mapping mapping d = d\<lparr>self_class_mapping := mapping\<rparr>"

subsection \<open>\<open>Detector.load_model\<close>\<close>

text \<open>
  What the file system and the model framework answer during one call of
  \<open>load_model\<close>: \<open>model_path.exists()\<close>, the constructor \<open>YOLO(str(model_path))\<close>, the
  warm-up \<open>new_model.predict(dummy_input)\<close> and \<open>model_path.stat().st_mtime\<close>.  Each of
  the last three returns or raises.
\<close>

record load_env =
  path_exists :: bool
  yolo_ctor :: "exn + yolo"
  warmup_predict :: "exn + unit"
  stat_mtime :: "exn + real"

definition compute_version :: "load_env \<Rightarrow> exn + string" where
  "compute_version env =
     (case stat_mtime env of
        Inl e \<Rightarrow> Inl e
      | Inr mtime \<Rightarrow> Inr (''v'' @ str_int (py_int mtime)))"

text \<open>
  \<open>load_model\<close> returns \<open>False\<close> when the path does not exist.  Inside \<open>try\<close> it
  builds and warms up the new model, then, holding the lock, first assigns
  \<open>self._model = new_model\<close> and then \<open>self._model_version = self._compute_version(...)\<close>.
  Any exception raised inside \<open>try\<close> is caught and turned into \<open>False\<close>; what has been
  assigned by then stays assigned.
\<close>

definition load_model :: "load_env \<Rightarrow> detector \<Rightarrow> bool \<times> detector" where
  "load_model env d =
     (if \<not> path_exists env then (False, d)
      else case yolo_ctor env of
        Inl e \<Rightarrow> (False, d)
      | Inr new_model \<Rightarrow>
          (case warmup_predict env of
             Inl e \<Rightarrow> (False, d)
           | Inr u \<Rightarrow>
               (let d1 = d\<lparr>self_model := Some new_model\<rparr>
                in case compute_version env of
                     Inl e \<Rightarrow> (False, d1)
                   | Inr v \<Rightarrow> (True, d1\<lparr>self_model_version := v\<rparr>))))"

subsection \<open>\<open>Detector.detect\<close>\<close>

text \<open>
  The decoded image keeps its size.  The inference capability is opaque: \<open>predict\<close>
  takes the model, the image, the two thresholds and \<open>imgsz\<close>, and returns a list of
  results or raises.  A result's \<open>boxes\<close> may be \<open>None\<close>; box \<open>i\<close> carries \<open>cls[i]\<close>,
  \<open>conf[i]\<close> and \<open>xyxy[i]\<close>.  \<open>perf_counter\<close> holds the two clock readings around the
  inference call.
\<close>

record image =
  img_width :: int
  img_height :: int

record raw_box =
  box_cls :: real
  box_conf :: real
  box_xyxy :: "real \<times> real \<times> real \<times> real"

record yolo_result =
  boxes :: "raw_box list option"

record infer_env =
  image_open :: "string \<Rightarrow> exn + image"
  predict :: "yolo \<Rightarrow> image \<Rightarrow> real \<Rightarrow> real \<Rightarrow> int \<Rightarrow> exn + yolo_result list"
  perf_counter :: "real \<times> real"

definition py_truediv :: "real \<Rightarrow> int \<Rightarrow> exn + real" where
  "py_truediv a b = (if b = 0 then Inl (ZeroDivisionError ''float division by zero'') else Inr (a / real_of_int b))"

text \<open>
  The name of a detection: \<open>self._class_mapping[class_id][1]\<close> when the class id is a
  key of the mapping, and \<open>self._model.names.get(class_id, f"class_{class_id}")\<close>
  otherwise.
\<close>

definition lookup_class_name :: "(string \<times> string) dict \<Rightarrow> yolo \<Rightarrow> int \<Rightarrow> string" where
  "lookup_class_name mapping m cid =
     (if dict_contains mapping cid
      then (case map_of mapping cid of Some (sku, name) \<Rightarrow> name | None \<Rightarrow> [])
      else dict_get (names m) cid (''class_'' @ str_int cid))"

definition parse_box :: "detector \<Rightarrow> yolo \<Rightarrow> int \<Rightarrow> int \<Rightarrow> raw_box \<Rightarrow> exn + detection_result" where
  "parse_box d m orig_width orig_height b =
     (let cid = py_int (box_cls b);
          cnf = box_conf b;
          (bx1, by1, bx2, by2) = box_xyxy b
      in case py_truediv bx1 orig_width of Inl e \<Rightarrow> Inl e | Inr x1_norm \<Rightarrow>
         (case py_truediv by1 orig_height of Inl e \<Rightarrow> Inl e | Inr y1_norm \<Rightarrow>
         (case py_truediv bx2 orig_width of Inl e \<Rightarrow> Inl e | Inr x2_norm \<Rightarrow>
         (case py_truediv by2 orig_height of Inl e \<Rightarrow> Inl e | Inr y2_norm \<Rightarrow>
           Inr \<lparr>class_id = cid,
                class_name = lookup_class_name (self_class_mapping d) m cid,
                confidence = cnf,
                x1 = x1_norm, y1 = y1_norm, x2 = x2_norm, y2 = y2_norm\<rparr>))))"

fun parse_boxes :: "detector \<Rightarrow> yolo \<Rightarrow> int \<Rightarrow> int \<Rightarrow> raw_box list \<Rightarrow> exn + detection_result list" where
  "parse_boxes d m orig_width orig_height [] = Inr []"
| "parse_boxes d m orig_width orig_height (b # bs) =
     (case parse_box d m orig_width orig_height b of
        Inl e \<Rightarrow> Inl e
      | Inr det \<Rightarrow>
          (case parse_boxes d m orig_width orig_height bs of
             Inl e \<Rightarrow> Inl e
           | Inr dets \<Rightarrow> Inr (det # dets)))"

text \<open>Lines 238 to 270: only \<open>results[0]\<close> is read, and only when its boxes are there.\<close>

definition parse_results :: "detector \<Rightarrow> yolo \<Rightarrow> image \<Rightarrow> yolo_result list \<Rightarrow> exn + detection_result list" where
  "parse_results d m img results =
     (case results of
        [] \<Rightarrow> Inr []
      | result # others \<Rightarrow>
          (case boxes result of
             None \<Rightarrow> Inr []
           | Some bs \<Rightarrow> parse_boxes d m (img_width img) (img_height img) bs))"

text \<open>Lines 226 to 276: the inference call with the thresholds in force, and the result.\<close>

definition run_inference :: "infer_env \<Rightarrow> detector \<Rightarrow> yolo \<Rightarrow> image \<Rightarrow> real \<Rightarrow> real \<Rightarrow> exn + inference_result" where
  "run_inference env d m img conf iou =
     (case predict env m img conf iou (input_size (config d)) of
        Inl e \<Rightarrow> Inl e
      | Inr results \<Rightarrow>
          (case parse_results d m img results of
             Inl e \<Rightarrow> Inl e
           | Inr dets \<Rightarrow>
               Inr \<lparr>detections = dets,
                    inference_time_ms = (snd (perf_counter env) - fst (perf_counter env)) * 1000,
                    model_version = self_model_version d\<rparr>))"

definition detect :: "infer_env \<Rightarrow> detector \<Rightarrow> string \<Rightarrow> real option \<Rightarrow> real option \<Rightarrow> exn + inference_result" where
  "detect env d image_bytes confidence_threshold iou_threshold =
     (case self_model d of
        None \<Rightarrow> Inl (RuntimeError ''Model not loaded'')
      | Some m \<Rightarrow>
          (let conf = py_or confidence_threshold (default_confidence (config d));
               iou = py_or iou_threshold (default_iou (config d))
           in case image_open env image_bytes of
                Inl e \<Rightarrow> Inl e
              | Inr img \<Rightarrow> run_inference env d m img conf iou))"

subsection \<open>\<open>Detector.get_model_info\<close>\<close>

record model_info =
  info_version :: string
  info_architecture :: string
  info_class_names :: "string list"
  info_input_size :: int

definition get_model_info :: "detector \<Rightarrow> model_info" where
  "get_model_info d =
     (case self_model d of
        None \<Rightarrow>
          \<lparr>info_version = ''none'', info_architecture = ''none'', info_class_names = [],
           info_input_size = input_size (config d)\<rparr>
      | Some m \<Rightarrow>
          \<lparr>info_version = self_model_version d, info_architecture = ''yolov8'',
           info_class_names = dict_values (names m),
           info_input_size = input_size (config d)\<rparr>)"


section \<open>The model watcher (\<open>ModelWatcher\<close> in \<open>app/detector.py\<close>)\<close>

record model_watcher =
  self_last_mtime :: "real option"
  self_running :: bool

definition ModelWatcher_init :: model_watcher where
  "ModelWatcher_init = \<lparr>self_last_mtime = None, self_running = False\<rparr>"

text \<open>
  \<open>_get_mtime\<close> answers \<open>None\<close> for a missing file (a \<open>stat\<close> that fails in another
  way is not part of the model).  \<open>start\<close> records the first reading (the thread it
  starts runs \<open>watch_loop\<close>).
\<close>

definition watcher_start :: "real option \<Rightarrow> model_watcher \<Rightarrow> model_watcher" where
  "watcher_start mtime_now w =
     (if self_running w then w
      else w\<lparr>self_running := True, self_last_mtime := mtime_now\<rparr>)"

definition watcher_stop :: "model_watcher \<Rightarrow> model_watcher" where
  "watcher_stop w = w\<lparr>self_running := False\<rparr>"

text \<open>
  One wake-up of the loop: whether \<open>stop\<close> has cleared \<open>self._running\<close> by the time the
  loop condition is read, what \<open>_get_mtime\<close> answers after the sleep, and what the
  world answers to the callback if it is invoked.
\<close>

record 'e poll =
  poll_stopped :: bool
  poll_mtime :: "real option"
  poll_env :: 'e

text \<open>
  The body of the loop after the sleep (lines 87 to 98).  The callback \<open>on_change\<close>
  acts on a state of its own and returns or raises; the watcher discards what it
  returns and catches what it raises.
\<close>

definition watch_iteration ::
  "('e \<Rightarrow> 's \<Rightarrow> (exn + 'r) \<times> 's) \<Rightarrow> real option \<Rightarrow> 'e \<Rightarrow> model_watcher \<times> 's \<Rightarrow> model_watcher \<times> 's" where
  "watch_iteration on_change current_mtime e ws =
     (case current_mtime of
        None \<Rightarrow> ws
      | Some cur \<Rightarrow>
          (if (case self_last_mtime (fst ws) of None \<Rightarrow> True | Some seen \<Rightarrow> cur > seen)
           then ((fst ws)\<lparr>self_last_mtime := Some cur\<rparr>, snd (on_change e (snd ws)))
           else ws))"

text \<open>
  \<open>_watch_loop\<close> over the wake-ups that happen: it leaves the loop at the first
  wake-up that finds \<open>self._running\<close> cleared, and is still inside it when the list of
  wake-ups ends.
\<close>

fun watch_loop ::
  "('e \<Rightarrow> 's \<Rightarrow> (exn + 'r) \<times> 's) \<Rightarrow> 'e poll list \<Rightarrow> model_watcher \<times> 's \<Rightarrow> model_watcher \<times> 's" where
  "watch_loop on_change [] ws = ws"
| "watch_loop on_change (p # ps) ws =
     (if poll_stopped p then (watcher_stop (fst ws), snd ws)
      else watch_loop on_change ps (watch_iteration on_change (poll_mtime p) (poll_env p) ws))"



text \<open>
  The states after each wake-up of \<open>_watch_loop\<close>, and the number of times a value
  changes along a list that starts after \<open>v\<close>.
\<close>

fun watch_trace ::
  "('e \<Rightarrow> 's \<Rightarrow> (exn + 'r) \<times> 's) \<Rightarrow> 'e poll list \<Rightarrow> model_watcher \<times> 's \<Rightarrow> (model_watcher \<times> 's) list" where
  "watch_trace on_change [] ws = []"
| "watch_trace on_change (p # ps) ws =
     (if poll_stopped p then []
      else watch_iteration on_change (poll_mtime p) (poll_env p) ws
           # watch_trace on_change ps (watch_iteration on_change (poll_mtime p) (poll_env p) ws))"





section \<open>The RPC servicer (\<open>app/servicer.py\<close>): SyncClasses\<close>

record class_info =
  cls_class_id :: int
  cls_sku_id :: string
  cls_class_name :: string

record sync_classes_response =
  sync_success :: bool
  sync_class_count :: nat

text \<open>The loop \<open>for cls in request.classes: mapping[cls.class_id] = (cls.sku_id, cls.class_name)\<close>.\<close>

fun build_mapping :: "(string \<times> string) dict \<Rightarrow> class_info list \<Rightarrow> (string \<times> string) dict" where
  "build_mapping mapping [] = mapping"
| "build_mapping mapping (cls # rest) =
     build_mapping (dict_setitem (cls_class_id cls) (cls_sku_id cls, cls_class_name cls) mapping) rest"

definition SyncClasses :: "class_info list \<Rightarrow> detector \<Rightarrow> sync_classes_response \<times> detector" where
  "SyncClasses classes d =
     (let mapping = build_mapping [] classes;
          d' = update_class_mapping mapping d
      in (\<lparr>sync_success = True, sync_class_count = length mapping\<rparr>, d'))"


section \<open>The RPC servicer (\<open>app/servicer.py\<close>): Detect, HealthCheck, GetModelInfo\<close>

datatype status_code = OK | UNAVAILABLE | INTERNAL

record detect_request =
  req_image :: string
  req_device_id :: string
  req_confidence_threshold :: real
  req_iou_threshold :: real

record bounding_box =
  bb_x1 :: real
  bb_y1 :: real
  bb_x2 :: real
  bb_y2 :: real

record pb_detection =
  det_class_name :: string
  det_sku_id :: string
  det_class_id :: int
  det_confidence :: real
  det_bbox :: bounding_box

record detect_response =
  resp_detections :: "pb_detection list"
  resp_model_version :: string
  resp_inference_time_ms :: real
  resp_request_id :: string

text \<open>A reply is the status code and details set on the context, and the message returned.\<close>

record 'a rpc_reply =
  reply_code :: status_code
  reply_details :: string
  reply_message :: 'a

definition DetectResponse_empty :: detect_response where
  "DetectResponse_empty =
     \<lparr>resp_detections = [], resp_model_version = [], resp_inference_time_ms = 0,
      resp_request_id = []\<rparr>"

text \<open>
  Lines 56 to 76: the response loop reads \<open>self.detector._class_mapping\<close> again for the
  SKU id of every detection.
\<close>

definition lookup_sku_id :: "(string \<times> string) dict \<Rightarrow> int \<Rightarrow> string" where
  "lookup_sku_id mapping cid =
     (if dict_contains mapping cid
      then (case map_of mapping cid of Some (sku, name) \<Rightarrow> sku | None \<Rightarrow> [])
      else [])"

definition to_pb_detection :: "detector \<Rightarrow> detection_result \<Rightarrow> pb_detection" where
  "to_pb_detection d det =
     \<lparr>det_class_name = class_name det,
      det_sku_id = lookup_sku_id (self_class_mapping d) (class_id det),
      det_class_id = class_id det,
      det_confidence = confidence det,
      det_bbox = \<lparr>bb_x1 = x1 det, bb_y1 = y1 det, bb_x2 = x2 det, bb_y2 = y2 det\<rparr>\<rparr>"

definition build_response :: "detector \<Rightarrow> string \<Rightarrow> inference_result \<Rightarrow> detect_response" where
  "build_response d request_id result =
     \<lparr>resp_detections = map (to_pb_detection d) (detections result),
      resp_model_version = model_version result,
      resp_inference_time_ms = inference_time_ms result,
      resp_request_id = request_id\<rparr>"

text \<open>
  Lines 55 to 94 of \<open>Detect\<close>: an exception of the engine becomes an \<open>INTERNAL\<close> fault
  with the message of the exception, a result becomes the response.
\<close>

definition detect_reply :: "detector \<Rightarrow> string \<Rightarrow> exn + inference_result \<Rightarrow> detect_response rpc_reply" where
  "detect_reply d request_id outcome =
     (case outcome of
        Inl e \<Rightarrow>
          \<lparr>reply_code = INTERNAL, reply_details = str_exn e,
           reply_message = DetectResponse_empty\<rparr>
      | Inr result \<Rightarrow>
          \<lparr>reply_code = OK, reply_details = [],
           reply_message = build_response d request_id result\<rparr>)"

text \<open>
  \<open>DetectionServicer.Detect\<close> while no other thread writes the class mapping: every
  read of \<open>self._class_mapping\<close> during the call returns the mapping of \<open>d\<close>.  The
  call in which the reads may return different values follows in the next section.
\<close>

definition Detect :: "infer_env \<Rightarrow> detector \<Rightarrow> detect_request \<Rightarrow> string \<Rightarrow> detect_response rpc_reply" where
  "Detect env d request request_id =
     (if \<not> model_loaded d
      then \<lparr>reply_code = UNAVAILABLE, reply_details = ''Model not loaded'',
            reply_message = DetectResponse_empty\<rparr>
      else
        (let conf_threshold = (if req_confidence_threshold request > 0
                               then Some (req_confidence_threshold request) else None);
             iou_threshold = (if req_iou_threshold request > 0
                              then Some (req_iou_threshold request) else None)
         in detect_reply d request_id
              (detect env d (req_image request) conf_threshold iou_threshold)))"

record health_response =
  healthy :: bool
  status :: string
  health_model_loaded :: bool
  uptime_seconds :: int

definition HealthCheck :: "real \<Rightarrow> real \<Rightarrow> detector \<Rightarrow> health_response" where
  "HealthCheck start_time now d =
     (let uptime = py_int (now - start_time);
          loaded = model_loaded d
      in if loaded
         then \<lparr>healthy = True, status = ''healthy'', health_model_loaded = loaded,
               uptime_seconds = uptime\<rparr>
         else \<lparr>healthy = False, status = ''model_not_loaded'', health_model_loaded = loaded,
               uptime_seconds = uptime\<rparr>)"

record model_info_response =
  mi_version :: string
  mi_architecture :: string
  mi_class_names :: "string list"
  mi_input_width :: int
  mi_input_height :: int
  mi_trained_at :: string
  mi_mAP50 :: real
  mi_mAP50_95 :: real

definition GetModelInfo :: "detector \<Rightarrow> model_info_response" where
  "GetModelInfo d =
     (let info = get_model_info d
      in \<lparr>mi_version = info_version info, mi_architecture = info_architecture info,
          mi_class_names = info_class_names info, mi_input_width = info_input_size info,
          mi_input_height = info_input_size info, mi_trained_at = [], mi_mAP50 = 0,
          mi_mAP50_95 = 0\<rparr>)"


section \<open>Reads of the class mapping during a \<open>Detect\<close> call\<close>

text \<open>
  \<open>update_class_mapping\<close> assigns \<open>self._class_mapping\<close> without taking the lock, and a
  \<open>Detect\<close> call reads the attribute again every time it needs it: for every box the
  engine reads it for the test \<open>class_id in self._class_mapping\<close> and, when the test
  succeeds, once more for the subscript (lines 255 and 256); for every detection the
  servicer does the same (lines 60 and 61).  Between two reads another thread may
  have replaced the mapping.  \<open>reads k\<close> is the value that read number \<open>k\<close> of the call
  returns; every function below takes the number of the next read and returns it
  with its result.  A subscript on a mapping that has lost the key raises \<open>KeyError\<close>.
\<close>

definition read_class_name :: "(nat \<Rightarrow> (string \<times> string) dict) \<Rightarrow> nat \<Rightarrow> yolo \<Rightarrow> int \<Rightarrow> (exn + string) \<times> nat" where
  "read_class_name reads k m cid =
     (if dict_contains (reads k) cid
      then (case map_of (reads (Suc k)) cid of
              None \<Rightarrow> (Inl (KeyError (str_int cid)), Suc (Suc k))
            | Some (sku, name) \<Rightarrow> (Inr name, Suc (Suc k)))
      else (Inr (dict_get (names m) cid (''class_'' @ str_int cid)), Suc k))"

text \<open>Lines 244 to 270 for one box.\<close>

definition parse_box_reading ::
  "(nat \<Rightarrow> (string \<times> string) dict) \<Rightarrow> nat \<Rightarrow> yolo \<Rightarrow> int \<Rightarrow> int \<Rightarrow> raw_box \<Rightarrow> (exn + detection_result) \<times> nat" where
  "parse_box_reading reads k m orig_width orig_height b =
     (let cid = py_int (box_cls b);
          cnf = box_conf b;
          (bx1, by1, bx2, by2) = box_xyxy b
      in case py_truediv bx1 orig_width of Inl e \<Rightarrow> (Inl e, k) | Inr x1_norm \<Rightarrow>
         (case py_truediv by1 orig_height of Inl e \<Rightarrow> (Inl e, k) | Inr y1_norm \<Rightarrow>
         (case py_truediv bx2 orig_width of Inl e \<Rightarrow> (Inl e, k) | Inr x2_norm \<Rightarrow>
         (case py_truediv by2 orig_height of Inl e \<Rightarrow> (Inl e, k) | Inr y2_norm \<Rightarrow>
           (case read_class_name reads k m cid of
              (Inl e, k') \<Rightarrow> (Inl e, k')
            | (Inr name, k') \<Rightarrow>
                (Inr \<lparr>class_id = cid, class_name = name, confidence = cnf,
                      x1 = x1_norm, y1 = y1_norm, x2 = x2_norm, y2 = y2_norm\<rparr>, k'))))))"

fun parse_boxes_reading ::
  "(nat \<Rightarrow> (string \<times> string) dict) \<Rightarrow> nat \<Rightarrow> yolo \<Rightarrow> int \<Rightarrow> int \<Rightarrow> raw_box list \<Rightarrow> (exn + detection_result list) \<times> nat" where
  "parse_boxes_reading reads k m orig_width orig_height [] = (Inr [], k)"
| "parse_boxes_reading reads k m orig_width orig_height (b # bs) =
     (case parse_box_reading reads k m orig_width orig_height b of
        (Inl e, k') \<Rightarrow> (Inl e, k')
      | (Inr det, k') \<Rightarrow>
          (case parse_boxes_reading reads k' m orig_width orig_height bs of
             (Inl e, k'') \<Rightarrow> (Inl e, k'')
           | (Inr dets, k'') \<Rightarrow> (Inr (det # dets), k'')))"

definition parse_results_reading ::
  "(nat \<Rightarrow> (string \<times> string) dict) \<Rightarrow> nat \<Rightarrow> yolo \<Rightarrow> image \<Rightarrow> yolo_result list \<Rightarrow> (exn + detection_result list) \<times> nat" where
  "parse_results_reading reads k m img results =
     (case results of
        [] \<Rightarrow> (Inr [], k)
      | result # others \<Rightarrow>
          (case boxes result of
             None \<Rightarrow> (Inr [], k)
           | Some bs \<Rightarrow> parse_boxes_reading reads k m (img_width img) (img_height img) bs))"

definition detect_reading ::
  "infer_env \<Rightarrow> detector \<Rightarrow> (nat \<Rightarrow> (string \<times> string) dict) \<Rightarrow> nat \<Rightarrow> string \<Rightarrow> real option \<Rightarrow> real option \<Rightarrow> (exn + inference_result) \<times> nat" where
  "detect_reading env d reads k image_bytes confidence_threshold iou_threshold =
     (case self_model d of
        None \<Rightarrow> (Inl (RuntimeError ''Model not loaded''), k)
      | Some m \<Rightarrow>
          (let conf = py_or confidence_threshold (default_confidence (config d));
               iou = py_or iou_threshold (default_iou (config d))
           in case image_open env image_bytes of
                Inl e \<Rightarrow> (Inl e, k)
              | Inr img \<Rightarrow>
                  (case predict env m img conf iou (input_size (config d)) of
                     Inl e \<Rightarrow> (Inl e, k)
                   | Inr results \<Rightarrow>
                       (case parse_results_reading reads k m img results of
                          (Inl e, k') \<Rightarrow> (Inl e, k')
                        | (Inr dets, k') \<Rightarrow>
                            (Inr \<lparr>detections = dets,
                                  inference_time_ms =
                                    (snd (perf_counter env) - fst (perf_counter env)) * 1000,
                                  model_version = self_model_version d\<rparr>, k')))))"

text \<open>Lines 59 to 61 of the servicer, and its response loop.\<close>

definition read_sku_id :: "(nat \<Rightarrow> (string \<times> string) dict) \<Rightarrow> nat \<Rightarrow> int \<Rightarrow> (exn + string) \<times> nat" where
  "read_sku_id reads k cid =
     (if dict_contains (reads k) cid
      then (case map_of (reads (Suc k)) cid of
              None \<Rightarrow> (Inl (KeyError (str_int cid)), Suc (Suc k))
            | Some (sku, name) \<Rightarrow> (Inr sku, Suc (Suc k)))
      else (Inr [], Suc k))"

fun build_detections_reading ::
  "(nat \<Rightarrow> (string \<times> string) dict) \<Rightarrow> nat \<Rightarrow> detection_result list \<Rightarrow> (exn + pb_detection list) \<times> nat" where
  "build_detections_reading reads k [] = (Inr [], k)"
| "build_detections_reading reads k (det # dets) =
     (case read_sku_id reads k (class_id det) of
        (Inl e, k') \<Rightarrow> (Inl e, k')
      | (Inr sku, k') \<Rightarrow>
          (case build_detections_reading reads k' dets of
             (Inl e, k'') \<Rightarrow> (Inl e, k'')
           | (Inr pbs, k'') \<Rightarrow>
               (Inr (\<lparr>det_class_name = class_name det, det_sku_id = sku,
                      det_class_id = class_id det, det_confidence = confidence det,
                      det_bbox = \<lparr>bb_x1 = x1 det, bb_y1 = y1 det,
                                  bb_x2 = x2 det, bb_y2 = y2 det\<rparr>\<rparr> # pbs), k'')))"

text \<open>
  \<open>DetectionServicer.Detect\<close> with the reads of the call: the engine starts at read 0,
  the response loop goes on where the engine stopped; an exception in either is
  caught at line 90.
\<close>

definition Detect_reading ::
  "infer_env \<Rightarrow> detector \<Rightarrow> (nat \<Rightarrow> (string \<times> string) dict) \<Rightarrow> detect_request \<Rightarrow> string \<Rightarrow> detect_response rpc_reply" where
  "Detect_reading env d reads request request_id =
     (if \<not> model_loaded d
      then \<lparr>reply_code = UNAVAILABLE, reply_details = ''Model not loaded'',
            reply_message = DetectResponse_empty\<rparr>
      else
        (let conf_threshold = (if req_confidence_threshold request > 0
                               then Some (req_confidence_threshold request) else None);
             iou_threshold = (if req_iou_threshold request > 0
                              then Some (req_iou_threshold request) else None)
         in case detect_reading env d reads 0 (req_image request) conf_threshold iou_threshold of
              (Inl e, k) \<Rightarrow>
                \<lparr>reply_code = INTERNAL, reply_details = str_exn e,
                 reply_message = DetectResponse_empty\<rparr>
            | (Inr result, k) \<Rightarrow>
                (case build_detections_reading reads k (detections result) of
                   (Inl e, k') \<Rightarrow>
                     \<lparr>reply_code = INTERNAL, reply_details = str_exn e,
                      reply_message = DetectResponse_empty\<rparr>
                 | (Inr pbs, k') \<Rightarrow>
                     \<lparr>reply_code = OK, reply_details = [],
                      reply_message =
                        \<lparr>resp_detections = pbs,
                         resp_model_version = model_version result,
                         resp_inference_time_ms = inference_time_ms result,
                         resp_request_id = request_id\<rparr>\<rparr>)))"


section \<open>Sequences of calls on one detector\<close>

text \<open>
  \<open>detect\<close> holds \<open>self._model_lock\<close> from its first line to its \<open>return\<close>, and
  \<open>load_model\<close> holds it around its two assignments, so the locked blocks of
  interleaved \<open>detect\<close> and \<open>load_model\<close> calls run one after the other.  A sequence of
  calls lists them in that order.
\<close>

datatype call =
    Reload load_env
  | DetectCall infer_env string "real option" "real option"
  | UpdateMapping "(string \<times> string) dict"

text \<open>The detector after a sequence of calls; \<open>detect\<close> does not change it.\<close>

fun run_calls :: "call list \<Rightarrow> detector \<Rightarrow> detector" where
  "run_calls [] d = d"
| "run_calls (Reload env # calls) d = run_calls calls (snd (load_model env d))"
| "run_calls (DetectCall env bytes ct it # calls) d = run_calls calls d"
| "run_calls (UpdateMapping mapping # calls) d = run_calls calls (update_class_mapping mapping d)"

text \<open>
  A call other than a reload that gets as far as line 147: a reload counts when the
  path is missing or when the constructor or the warm-up raises.
\<close>

definition fails_before_install :: "call \<Rightarrow> bool" where
  "fails_before_install c =
     (case c of
        Reload env \<Rightarrow> \<not> path_exists env \<or> isl (yolo_ctor env) \<or> isl (warmup_predict env)
      | _ \<Rightarrow> True)"

text \<open>
  The handle a reload installs: the new model together with the version computed for
  it, when \<open>load_model\<close> returns \<open>True\<close>; nothing otherwise.
\<close>

definition installed_handle :: "load_env \<Rightarrow> detector \<Rightarrow> (yolo \<times> string) list" where
  "installed_handle env d =
     (if fst (load_model env d)
      then (case self_model (snd (load_model env d)) of
              None \<Rightarrow> []
            | Some m \<Rightarrow> [(m, self_model_version (snd (load_model env d)))])
      else [])"

text \<open>
  A result of \<open>detect\<close> comes from an installed handle when the model the call ran
  (\<open>self._model\<close> of the detector it ran on) and the version in its result are the model
  and version of one handle in \<open>handles\<close>.
\<close>

definition result_from_handle :: "(yolo \<times> string) list \<Rightarrow> detector \<Rightarrow> exn + inference_result \<Rightarrow> bool" where
  "result_from_handle handles d outcome =
     (case outcome of
        Inl e \<Rightarrow> True
      | Inr result \<Rightarrow>
          (case self_model d of
             None \<Rightarrow> False
           | Some m \<Rightarrow> (m, model_version result) \<in> set handles))"

text \<open>
  Every \<open>detect\<close> of the sequence that returns a result returns one that comes from a
  handle installed by an earlier reload of the sequence (or from \<open>handles\<close>).
\<close>

fun versions_consistent :: "(yolo \<times> string) list \<Rightarrow> call list \<Rightarrow> detector \<Rightarrow> bool" where
  "versions_consistent handles [] d = True"
| "versions_consistent handles (Reload env # calls) d =
     versions_consistent (handles @ installed_handle env d) calls (snd (load_model env d))"
| "versions_consistent handles (DetectCall env bytes ct it # calls) d =
     (result_from_handle handles d (detect env d bytes ct it)
      \<and> versions_consistent handles calls d)"
| "versions_consistent handles (UpdateMapping mapping # calls) d =
     versions_consistent handles calls (update_class_mapping mapping d)"

text \<open>
  A call other than a reload whose \<open>stat\<close> raises after the model has been built and
  warmed up.
\<close>

definition stat_ok_after_warmup :: "call \<Rightarrow> bool" where
  "stat_ok_after_warmup c =
     (case c of
        Reload env \<Rightarrow>
          \<not> (path_exists env \<and> \<not> isl (yolo_ctor env) \<and> \<not> isl (warmup_predict env)
             \<and> isl (stat_mtime env))
      | _ \<Rightarrow> True)"

definition handle_inv :: "(yolo \<times> string) list \<Rightarrow> detector \<Rightarrow> bool" where
  "handle_inv handles d =
     (case self_model d of None \<Rightarrow> True
      | Some m \<Rightarrow> (m, self_model_version d) \<in> set handles)"



section \<open>Threads and the model lock\<close>

text \<open>
  The RPC layer runs every call on a worker thread of its own and the watcher runs
  \<open>load_model\<close> on a thread of its own; all of them share one detector with its
  \<open>threading.RLock\<close>.  A thread is the call it executes and the point it has reached.
  The points are cut where the code enters or leaves a \<open>with self._model_lock\<close> block
  and around the calls that take time (the constructor, the warm-up, the inference
  call); what a step computes is what the sequential functions above compute.  The
  reads of the class mapping, which need no lock, are not cut apart here: they are
  the subject of the section on the reads of the class mapping.  A step tells what
  it does to the lock: it leaves it alone, acquires it or releases it.
  \<open>HealthCheck\<close> and \<open>GetModelInfo\<close> take the lock for one read, as the
  \<open>model_loaded\<close> check of \<open>Detect\<close> does; they have no threads of their own here.
\<close>

datatype lock_op = Keep | Acquire | Release

text \<open>
  \<open>DetectionServicer.Detect\<close>: line 39 reads the property \<open>model_loaded\<close>, which takes
  the lock for the read (\<open>D_loaded_acquire\<close>, \<open>D_loaded_read\<close>); \<open>Detector.detect\<close> takes
  the lock at line 210 (\<open>D_acquire\<close>) and holds it while it checks the model, decodes
  the image and runs the inference (\<open>D_inference\<close>), parses the boxes and builds its
  result (\<open>D_parse\<close>); the lock is released when \<open>detect\<close> returns or raises.  The
  servicer then builds the response without the lock (\<open>D_respond\<close>).
\<close>

datatype detect_pc =
    D_loaded_acquire
  | D_loaded_read
  | D_acquire
  | D_inference
  | D_parse yolo image "yolo_result list"
  | D_respond inference_result
  | D_done "detect_response rpc_reply"

text \<open>
  \<open>Detector.load_model\<close>: the existence check (\<open>L_exists\<close>), the constructor
  (\<open>L_construct\<close>) and the warm-up (\<open>L_warmup\<close>) run without the lock; line 147 takes
  the lock (\<open>L_acquire\<close>) for the two assignments (\<open>L_assign_model\<close>,
  \<open>L_assign_version\<close>); after the block, line 152 reads the property \<open>class_names\<close>,
  which takes the lock again for the read (\<open>L_log_acquire\<close>, \<open>L_log_read\<close>).
\<close>

datatype load_pc =
    L_exists
  | L_construct
  | L_warmup yolo
  | L_acquire yolo
  | L_assign_model yolo
  | L_assign_version
  | L_log_acquire
  | L_log_read
  | L_done bool

text \<open>\<open>DetectionServicer.SyncClasses\<close> stores the new mapping without taking the lock.\<close>

datatype sync_pc =
    S_store
  | S_done sync_classes_response

datatype thread =
    Detect_thread infer_env detect_request string detect_pc
  | Load_thread load_env load_pc
  | Sync_thread "class_info list" sync_pc

definition unavailable_reply :: "detect_response rpc_reply" where
  "unavailable_reply =
     \<lparr>reply_code = UNAVAILABLE, reply_details = ''Model not loaded'',
      reply_message = DetectResponse_empty\<rparr>"

fun detect_step :: "infer_env \<Rightarrow> detect_request \<Rightarrow> string \<Rightarrow> detect_pc \<Rightarrow> detector \<Rightarrow> (detect_pc \<times> lock_op) option" where
  "detect_step env request rid D_loaded_acquire d = Some (D_loaded_read, Acquire)"
| "detect_step env request rid D_loaded_read d =
     Some (if model_loaded d then D_acquire else D_done unavailable_reply, Release)"
| "detect_step env request rid D_acquire d = Some (D_inference, Acquire)"
| "detect_step env request rid D_inference d =
     (case self_model d of
        None \<Rightarrow> Some (D_done (detect_reply d rid (Inl (RuntimeError ''Model not loaded''))), Release)
      | Some m \<Rightarrow>
          (case image_open env (req_image request) of
             Inl e \<Rightarrow> Some (D_done (detect_reply d rid (Inl e)), Release)
           | Inr img \<Rightarrow>
               (case predict env m img
                       (py_or (if req_confidence_threshold request > 0
                               then Some (req_confidence_threshold request) else None)
                          (default_confidence (config d)))
                       (py_or (if req_iou_threshold request > 0
                               then Some (req_iou_threshold request) else None)
                          (default_iou (config d)))
                       (input_size (config d)) of
                  Inl e \<Rightarrow> Some (D_done (detect_reply d rid (Inl e)), Release)
                | Inr results \<Rightarrow> Some (D_parse m img results, Keep))))"
| "detect_step env request rid (D_parse m img results) d =
     (case parse_results d m img results of
        Inl e \<Rightarrow> Some (D_done (detect_reply d rid (Inl e)), Release)
      | Inr dets \<Rightarrow>
          Some (D_respond
                 \<lparr>detections = dets,
                  inference_time_ms = (snd (perf_counter env) - fst (perf_counter env)) * 1000,
                  model_version = self_model_version d\<rparr>, Release))"
| "detect_step env request rid (D_respond result) d =
     Some (D_done (detect_reply d rid (Inr result)), Keep)"
| "detect_step env request rid (D_done reply) d = None"

fun load_step :: "load_env \<Rightarrow> load_pc \<Rightarrow> detector \<Rightarrow> (load_pc \<times> detector \<times> lock_op) option" where
  "load_step env L_exists d = Some (if path_exists env then L_construct else L_done False, d, Keep)"
| "load_step env L_construct d =
     Some (case yolo_ctor env of Inl e \<Rightarrow> L_done False | Inr new_model \<Rightarrow> L_warmup new_model, d, Keep)"
| "load_step env (L_warmup new_model) d =
     Some (case warmup_predict env of Inl e \<Rightarrow> L_done False | Inr u \<Rightarrow> L_acquire new_model, d, Keep)"
| "load_step env (L_acquire new_model) d = Some (L_assign_model new_model, d, Acquire)"
| "load_step env (L_assign_model new_model) d =
     Some (L_assign_version, d\<lparr>self_model := Some new_model\<rparr>, Keep)"
| "load_step env L_assign_version d =
     (case compute_version env of
        Inl e \<Rightarrow> Some (L_done False, d, Release)
      | Inr v \<Rightarrow> Some (L_log_acquire, d\<lparr>self_model_version := v\<rparr>, Release))"
| "load_step env L_log_acquire d = Some (L_log_read, d, Acquire)"
| "load_step env L_log_read d = Some (L_done True, d, Release)"
| "load_step env (L_done ok) d = None"

text \<open>The next step of a thread on the detector as it is; \<open>None\<close> when the call has returned.\<close>

fun thread_step :: "thread \<Rightarrow> detector \<Rightarrow> (thread \<times> detector \<times> lock_op) option" where
  "thread_step (Detect_thread env request rid pc) d =
     (case detect_step env request rid pc d of
        None \<Rightarrow> None
      | Some (pc', op) \<Rightarrow> Some (Detect_thread env request rid pc', d, op))"
| "thread_step (Load_thread env pc) d =
     (case load_step env pc d of
        None \<Rightarrow> None
      | Some (pc', d', op) \<Rightarrow> Some (Load_thread env pc', d', op))"
| "thread_step (Sync_thread classes S_store) d =
     Some (Sync_thread classes (S_done (fst (SyncClasses classes d))), snd (SyncClasses classes d), Keep)"
| "thread_step (Sync_thread classes (S_done response)) d = None"

text \<open>The points inside a \<open>with self._model_lock\<close> block.\<close>

fun detect_holds :: "detect_pc \<Rightarrow> bool" where
  "detect_holds D_loaded_read = True"
| "detect_holds D_inference = True"
| "detect_holds (D_parse m img results) = True"
| "detect_holds pc = False"

fun load_holds :: "load_pc \<Rightarrow> bool" where
  "load_holds (L_assign_model new_model) = True"
| "load_holds L_assign_version = True"
| "load_holds L_log_read = True"
| "load_holds pc = False"

fun holds_lock :: "thread \<Rightarrow> bool" where
  "holds_lock (Detect_thread env request rid pc) = detect_holds pc"
| "holds_lock (Load_thread env pc) = load_holds pc"
| "holds_lock (Sync_thread classes pc) = False"

text \<open>The points in front of a \<open>with self._model_lock\<close> block.\<close>

fun waits_for_lock :: "thread \<Rightarrow> bool" where
  "waits_for_lock (Detect_thread env request rid pc) = (pc = D_loaded_acquire \<or> pc = D_acquire)"
| "waits_for_lock (Load_thread env pc) =
     (case pc of L_acquire new_model \<Rightarrow> True | L_log_acquire \<Rightarrow> True | _ \<Rightarrow> False)"
| "waits_for_lock (Sync_thread classes pc) = False"

fun finished :: "thread \<Rightarrow> bool" where
  "finished (Detect_thread env request rid pc) = (case pc of D_done reply \<Rightarrow> True | _ \<Rightarrow> False)"
| "finished (Load_thread env pc) = (case pc of L_done ok \<Rightarrow> True | _ \<Rightarrow> False)"
| "finished (Sync_thread classes pc) = (case pc of S_done response \<Rightarrow> True | _ \<Rightarrow> False)"

text \<open>A reload in its load-and-warm-up step: before line 147.\<close>

fun loading :: "thread \<Rightarrow> bool" where
  "loading (Load_thread env pc) =
     (case pc of L_exists \<Rightarrow> True | L_construct \<Rightarrow> True | L_warmup new_model \<Rightarrow> True | _ \<Rightarrow> False)"
| "loading th = False"

text \<open>A call inside the body of \<open>Detector.detect\<close>: lines 211 to 276.\<close>

fun in_detect_body :: "thread \<Rightarrow> bool" where
  "in_detect_body (Detect_thread env request rid pc) =
     (case pc of D_inference \<Rightarrow> True | D_parse m img results \<Rightarrow> True | _ \<Rightarrow> False)"
| "in_detect_body th = False"

fun at_start :: "thread \<Rightarrow> bool" where
  "at_start (Detect_thread env request rid pc) = (pc = D_loaded_acquire)"
| "at_start (Load_thread env pc) = (pc = L_exists)"
| "at_start (Sync_thread classes pc) = (pc = S_store)"

text \<open>
  The system: the shared detector, the owner of the lock with its recursion depth
  (an \<open>RLock\<close> may be acquired again by the thread that owns it), and the threads;
  a thread is named by its position.
\<close>

record sys =
  sys_detector :: detector
  sys_lock :: "(nat \<times> nat) option"
  sys_threads :: "thread list"

text \<open>
  The lock after thread \<open>t\<close> does \<open>op\<close>; \<open>None\<close> when \<open>t\<close> cannot do it now: acquiring
  a lock that another thread owns blocks.
\<close>

definition lock_after :: "nat \<Rightarrow> lock_op \<Rightarrow> (nat \<times> nat) option \<Rightarrow> (nat \<times> nat) option option" where
  "lock_after t op l =
     (case op of
        Keep \<Rightarrow> Some l
      | Acquire \<Rightarrow>
          (case l of
             None \<Rightarrow> Some (Some (t, 1))
           | Some (owner, depth) \<Rightarrow> if owner = t then Some (Some (t, Suc depth)) else None)
      | Release \<Rightarrow>
          (case l of
             None \<Rightarrow> None
           | Some (owner, depth) \<Rightarrow>
               if owner = t \<and> depth = 1 then Some None
               else if owner = t \<and> depth > 1 then Some (Some (t, depth - 1))
               else None))"

text \<open>Thread \<open>t\<close> takes its next step; \<open>None\<close> when it has none or cannot take it now.\<close>

definition step :: "nat \<Rightarrow> sys \<Rightarrow> sys option" where
  "step t s =
     (if t < length (sys_threads s)
      then (case thread_step (sys_threads s ! t) (sys_detector s) of
              None \<Rightarrow> None
            | Some (th', d', op) \<Rightarrow>
                (case lock_after t op (sys_lock s) of
                   None \<Rightarrow> None
                 | Some l' \<Rightarrow>
                     Some \<lparr>sys_detector = d', sys_lock = l',
                           sys_threads = (sys_threads s)[t := th']\<rparr>))
      else None)"

text \<open>A schedule names the thread that takes each step.\<close>

fun run :: "nat list \<Rightarrow> sys \<Rightarrow> sys option" where
  "run [] s = Some s"
| "run (t # sched) s = (case step t s of None \<Rightarrow> None | Some s' \<Rightarrow> run sched s')"

text \<open>Thread \<open>t\<close> takes up to \<open>n\<close> steps with no other thread in between.\<close>

fun steps :: "nat \<Rightarrow> nat \<Rightarrow> sys \<Rightarrow> sys" where
  "steps 0 t s = s"
| "steps (Suc n) t s = (case step t s of None \<Rightarrow> s | Some s' \<Rightarrow> steps n t s')"

definition initial :: "sys \<Rightarrow> bool" where
  "initial s = (sys_lock s = None \<and> list_all at_start (sys_threads s))"

text \<open>Thread \<open>t\<close> stands in front of a locked block and another thread owns the lock.\<close>

definition blocked :: "nat \<Rightarrow> sys \<Rightarrow> bool" where
  "blocked t s =
     (t < length (sys_threads s) \<and> waits_for_lock (sys_threads s ! t)
      \<and> (case sys_lock s of None \<Rightarrow> False | Some (owner, depth) \<Rightarrow> owner \<noteq> t))"

text \<open>The owner of the lock is the one thread inside a locked block.\<close>

definition lock_inv :: "sys \<Rightarrow> bool" where
  "lock_inv s =
     ((\<forall>t < length (sys_threads s).
         holds_lock (sys_threads s ! t) = (sys_lock s = Some (t, 1)))
      \<and> (case sys_lock s of None \<Rightarrow> True
          | Some (owner, depth) \<Rightarrow> owner < length (sys_threads s) \<and> depth = 1))"


section \<open>Resolved names\<close>

text \<open>
  The display name and external id of a class id under a mapping and a model: the
  entry of the mapping when there is one, and otherwise the model's intrinsic name
  (\<open>class_<id>\<close> for an id the model has no name for) with an empty external id.
\<close>

definition resolve_name_and_sku :: "(string \<times> string) dict \<Rightarrow> yolo \<Rightarrow> int \<Rightarrow> string \<times> string" where
  "resolve_name_and_sku mapping m cid =
     (case map_of mapping cid of
        Some (sku, name) \<Rightarrow> (name, sku)
      | None \<Rightarrow>
          (case map_of (names m) cid of
             Some intrinsic \<Rightarrow> (intrinsic, [])
           | None \<Rightarrow> (''class_'' @ str_int cid, [])))"

text \<open>
  Every detection of a response carries the name and the external id that one
  mapping value gives for its class id.
\<close>

definition resolved_from :: "(string \<times> string) dict \<Rightarrow> yolo \<Rightarrow> detect_response \<Rightarrow> bool" where
  "resolved_from mapping m resp =
     list_all (\<lambda>p. det_class_name p = lookup_class_name mapping m (det_class_id p)
                 \<and> det_sku_id p = lookup_sku_id mapping (det_class_id p))
       (resp_detections resp)"



section \<open>Example inputs\<close>

definition example_config :: model_config where
  "example_config =
     \<lparr>model_dir = ''models'', model_name = ''test.pt'', watch_interval = 1,
      default_confidence = 1 / 2, default_iou = 45 / 100, input_size = 640\<rparr>"

definition model_a :: yolo where
  "model_a = \<lparr>obj_id = 1, names = [(0, ''cola''), (1, ''sprite'')]\<rparr>"

definition model_b :: yolo where
  "model_b = \<lparr>obj_id = 2, names = [(0, ''cola-v2''), (1, ''sprite-v2'')]\<rparr>"

definition load_ok_a :: load_env where
  "load_ok_a = \<lparr>path_exists = True, yolo_ctor = Inr model_a, warmup_predict = Inr (),
                 stat_mtime = Inr (1005 / 10)\<rparr>"

definition load_stat_fails_b :: load_env where
  "load_stat_fails_b = \<lparr>path_exists = True, yolo_ctor = Inr model_b, warmup_predict = Inr (),
                 stat_mtime = Inl (FileNotFoundError ''models/test.pt'')\<rparr>"

definition load_missing :: load_env where
  "load_missing = \<lparr>path_exists = False, yolo_ctor = Inl (FileNotFoundError ''models/test.pt''),
                    warmup_predict = Inr (), stat_mtime = Inl (FileNotFoundError ''models/test.pt'')\<rparr>"

definition detector_a :: detector where
  "detector_a = snd (load_model load_ok_a (Detector_init example_config))"

text \<open>An inference capability that reports the thresholds it is called with: one box of
  class 0 whose confidence is the confidence threshold and whose left edge is the IoU threshold.\<close>

definition echo_env :: infer_env where
  "echo_env =
     \<lparr>image_open = (\<lambda>bytes. Inr \<lparr>img_width = 1, img_height = 1\<rparr>),
      predict = (\<lambda>m img conf iou imgsz.
         Inr [\<lparr>boxes = Some [\<lparr>box_cls = 0, box_conf = conf, box_xyxy = (iou, 0, 1, 1)\<rparr>]\<rparr>]),
      perf_counter = (0, 0)\<rparr>"

text \<open>An inference capability that finds one box of class 0 in a 640 by 480 image.\<close>

definition one_box_env :: infer_env where
  "one_box_env =
     \<lparr>image_open = (\<lambda>bytes. Inr \<lparr>img_width = 640, img_height = 480\<rparr>),
      predict = (\<lambda>m img conf iou imgsz.
         Inr [\<lparr>boxes = Some [\<lparr>box_cls = 0, box_conf = 95 / 100,
                                box_xyxy = (100, 100, 200, 200)\<rparr>]\<rparr>]),
      perf_counter = (0, 3 / 1000)\<rparr>"

definition old_classes :: "class_info list" where
  "old_classes = [\<lparr>cls_class_id = 0, cls_sku_id = ''sku-000'', cls_class_name = ''Cola (old)''\<rparr>]"

definition new_classes :: "class_info list" where
  "new_classes = [\<lparr>cls_class_id = 0, cls_sku_id = ''sku-001'', cls_class_name = ''Coca-Cola''\<rparr>]"

definition example_request :: detect_request where
  "example_request = \<lparr>req_image = ''jpeg'', req_device_id = ''cam-1'',
     req_confidence_threshold = 0, req_iou_threshold = 0\<rparr>"

definition failing_calls :: "call list" where
  "failing_calls =
     [Reload load_missing, UpdateMapping [(0, (''sku-001'', ''Coca-Cola''))],
      DetectCall one_box_env ''jpeg'' None None,
      Reload \<lparr>path_exists = True, yolo_ctor = Inl (OtherError ''corrupt weights''),
              warmup_predict = Inr (), stat_mtime = Inr 100\<rparr>]"

definition stale_version_calls :: "call list" where
  "stale_version_calls =
     [Reload load_ok_a, Reload load_stat_fails_b, DetectCall one_box_env ''jpeg'' None None]"

text \<open>Two \<open>Detect\<close> calls on one detector; a \<open>Detect\<close> call and a reload on one detector.\<close>

definition two_detects :: sys where
  "two_detects =
     \<lparr>sys_detector = detector_a, sys_lock = None,
      sys_threads = [Detect_thread one_box_env example_request ''00000001'' D_loaded_acquire,
                     Detect_thread one_box_env example_request ''00000002'' D_loaded_acquire]\<rparr>"

definition detect_and_reload :: sys where
  "detect_and_reload =
     \<lparr>sys_detector = detector_a, sys_lock = None,
      sys_threads = [Detect_thread one_box_env example_request ''00000001'' D_loaded_acquire,
                     Load_thread load_stat_fails_b L_exists]\<rparr>"


text \<open>A sequence of calls in which no \<open>stat\<close> raises.\<close>

definition consistent_calls :: "call list" where
  "consistent_calls =
     [DetectCall one_box_env ''jpeg'' None None, Reload load_ok_a,
      DetectCall one_box_env ''jpeg'' None None, UpdateMapping [(0, (''sku-001'', ''Coca-Cola''))],
      Reload load_missing, DetectCall one_box_env ''jpeg'' None None]"



text \<open>An inference capability that finds two boxes of class 0.\<close>

definition two_box_env :: infer_env where
  "two_box_env =
     \<lparr>image_open = (\<lambda>bytes. Inr \<lparr>img_width = 640, img_height = 480\<rparr>),
      predict = (\<lambda>m img conf iou imgsz.
         Inr [\<lparr>boxes = Some [\<lparr>box_cls = 0, box_conf = 95 / 100,
                                box_xyxy = (100, 100, 200, 200)\<rparr>,
                              \<lparr>box_cls = 0, box_conf = 90 / 100,
                                box_xyxy = (300, 100, 400, 200)\<rparr>]\<rparr>]),
      perf_counter = (0, 3 / 1000)\<rparr>"

text \<open>The mappings that \<open>SyncClasses\<close> stores for the old and for the new classes.\<close>

definition old_mapping :: "(string \<times> string) dict" where
  "old_mapping = build_mapping [] old_classes"

definition new_mapping :: "(string \<times> string) dict" where
  "new_mapping = build_mapping [] new_classes"

text \<open>
  Reads of a call during which the new mapping replaces the old one after the second
  read; reads of a call during which the mapping is emptied after the first read.
\<close>

definition reads_switch :: "nat \<Rightarrow> (string \<times> string) dict" where
  "reads_switch k = (if k < 2 then old_mapping else new_mapping)"

definition reads_key_removed :: "nat \<Rightarrow> (string \<times> string) dict" where
  "reads_key_removed k = (if k < 1 then old_mapping else [])"







section \<open>Properties of SyncClasses\<close>

lemma find_app:
  "find P (xs @ ys) = (case find P xs of None \<Rightarrow> find P ys | Some x \<Rightarrow> Some x)"
  by (induction xs) auto

lemma build_mapping_map_of:
  "map_of (build_mapping mapping classes) k =
     (case find (\<lambda>c. cls_class_id c = k) (rev classes) of
        Some c \<Rightarrow> Some (cls_sku_id c, cls_class_name c)
      | None \<Rightarrow> map_of mapping k)"
proof (induction classes arbitrary: mapping)
  case Nil
  show ?case by simp
next
  case (Cons c cs)
  show ?case
    by (simp add: Cons.IH dict_setitem_def update_conv' find_app split: option.split)
qed

lemma build_mapping_keys:
  "fst ` set (build_mapping mapping classes) = fst ` set mapping \<union> cls_class_id ` set classes"
  by (induction classes arbitrary: mapping) (auto simp: dict_setitem_def dom_update)

lemma build_mapping_distinct:
  "distinct (map fst mapping) \<Longrightarrow> distinct (map fst (build_mapping mapping classes))"
  by (induction classes arbitrary: mapping) (auto simp: dict_setitem_def distinct_update)

lemma build_mapping_length:
  "length (build_mapping [] classes) = card (cls_class_id ` set classes)"
proof -
  have d: "distinct (map fst (build_mapping [] classes))"
    by (rule build_mapping_distinct) simp
  have "length (build_mapping [] classes) = length (map fst (build_mapping [] classes))"
    by simp
  also have "\<dots> = card (set (map fst (build_mapping [] classes)))"
    using d by (simp only: distinct_card)
  also have "\<dots> = card (cls_class_id ` set classes)"
    using build_mapping_keys [of "[]" classes] by simp
  finally show ?thesis .
qed

text \<open>
  Claim C9.  SyncClasses is idempotent: a second call with the same triples, made on
  the state the first call left, reports the same \<open>class_count\<close> (and success) and
  leaves the detector, hence the effective class mapping, as the first call left it.
\<close>

theorem SyncClasses_idempotent:
  "fst (SyncClasses classes (snd (SyncClasses classes d))) = fst (SyncClasses classes d)
   \<and> snd (SyncClasses classes (snd (SyncClasses classes d))) = snd (SyncClasses classes d)
   \<and> self_class_mapping (snd (SyncClasses classes d)) = build_mapping [] classes"
  by (simp add: SyncClasses_def update_class_mapping_def Let_def)

text \<open>
  Claim C10.  With several triples for one class id the last one wins; the call
  reports success, and \<open>class_count\<close> is the number of distinct class ids, which is
  strictly less than the number of triples for a request that repeats an id.
\<close>

theorem SyncClasses_duplicate_ids:
  "map_of (self_class_mapping (snd (SyncClasses classes d))) k =
     map_option (\<lambda>c. (cls_sku_id c, cls_class_name c))
       (find (\<lambda>c. cls_class_id c = k) (rev classes))
   \<and> sync_success (fst (SyncClasses classes d)) = True
   \<and> sync_class_count (fst (SyncClasses classes d)) = card (cls_class_id ` set classes)
   \<and> sync_class_count (fst (SyncClasses classes d)) \<le> length classes
   \<and> sync_class_count (fst (SyncClasses
         [\<lparr>cls_class_id = 0, cls_sku_id = ''sku-001'', cls_class_name = ''Cola''\<rparr>,
          \<lparr>cls_class_id = 0, cls_sku_id = ''sku-002'', cls_class_name = ''Coca-Cola''\<rparr>] d))
       < length
         [\<lparr>cls_class_id = 0, cls_sku_id = ''sku-001'', cls_class_name = ''Cola''\<rparr>,
          \<lparr>cls_class_id = 0, cls_sku_id = ''sku-002'', cls_class_name = ''Coca-Cola''\<rparr>]"
proof -
  have a: "map_of (self_class_mapping (snd (SyncClasses classes d))) k =
     map_option (\<lambda>c. (cls_sku_id c, cls_class_name c))
       (find (\<lambda>c. cls_class_id c = k) (rev classes))"
    by (simp add: SyncClasses_def update_class_mapping_def Let_def build_mapping_map_of
        split: option.split)
  have b: "sync_class_count (fst (SyncClasses classes d)) = card (cls_class_id ` set classes)"
    by (simp add: SyncClasses_def Let_def build_mapping_length)
  have c: "card (cls_class_id ` set classes) \<le> length classes"
    by (metis card_image_le card_length le_trans List.finite_set)
  have e: "sync_class_count (fst (SyncClasses
         [\<lparr>cls_class_id = 0, cls_sku_id = ''sku-001'', cls_class_name = ''Cola''\<rparr>,
          \<lparr>cls_class_id = 0, cls_sku_id = ''sku-002'', cls_class_name = ''Coca-Cola''\<rparr>] d)) = 1"
    by (simp add: SyncClasses_def Let_def dict_setitem_def)
  show ?thesis
    using a b c e by (simp add: SyncClasses_def Let_def)
qed


section \<open>Properties of \<open>load_model\<close>\<close>

lemma detector_a_eq: "detector_a = \<lparr>config = example_config, self_model = Some model_a,
   self_model_version = ''v100'', self_class_mapping = []\<rparr>"
  by (simp add: detector_a_def load_model_def load_ok_a_def Detector_init_def compute_version_def
     str_int_def py_int_def str_nat.simps digit_char_def Let_def)

lemma load_model_failure_cases:
  "fst (load_model env d) = False \<Longrightarrow>
     snd (load_model env d) = d \<or>
     (\<exists>new_model e. path_exists env \<and> yolo_ctor env = Inr new_model \<and> warmup_predict env = Inr ()
        \<and> stat_mtime env = Inl e \<and> snd (load_model env d) = d\<lparr>self_model := Some new_model\<rparr>)"
  by (auto simp: load_model_def compute_version_def Let_def split: if_splits sum.splits)

text \<open>
  A reload that fails because the path is missing, or because the constructor or the
  warm-up raises, returns \<open>False\<close> and leaves the detector as it was.
\<close>

lemma load_model_early_failure:
  "\<not> path_exists env \<or> isl (yolo_ctor env) \<or> isl (warmup_predict env) \<Longrightarrow>
     load_model env d = (False, d)"
  by (auto simp: load_model_def Let_def split: sum.splits)

theorem load_model_early_failure_witness:
  "\<not> path_exists load_missing
   \<and> load_model load_missing detector_a = (False, detector_a)
   \<and> info_version (get_model_info (snd (load_model load_missing detector_a))) = ''v100''"
proof -
  have h: "\<not> path_exists load_missing \<or> isl (yolo_ctor load_missing)
            \<or> isl (warmup_predict load_missing)"
    by (simp add: load_missing_def)
  have n: "\<not> path_exists load_missing"
    by (simp add: load_missing_def)
  have v: "info_version (get_model_info detector_a) = ''v100''"
    by (simp add: get_model_info_def detector_a_eq)
  show ?thesis
    using n v load_model_early_failure [OF h, of detector_a] by simp
qed

text \<open>
  Claim C3.  A failing reload returns \<open>False\<close> and leaves the model reference and the
  version as they were.  The code does so when the path is missing and when the
  constructor or the warm-up raises (\<open>load_model_early_failure\<close>), but not when
  \<open>_compute_version\<close> raises: \<open>self._model\<close> has been assigned by then.  Evaluated on a
  detector holding \<open>model_a\<close> at version \<open>v100\<close>: the reload returns \<open>False\<close>, the
  detector now holds \<open>model_b\<close>, and \<open>get_model_info\<close> reports the class names of
  \<open>model_b\<close> under the version \<open>v100\<close>.
\<close>

theorem load_model_version_failure:
  "load_model load_stat_fails_b detector_a =
     (False, detector_a\<lparr>self_model := Some model_b\<rparr>)
   \<and> self_model (snd (load_model load_stat_fails_b detector_a)) \<noteq> self_model detector_a
   \<and> info_version (get_model_info (snd (load_model load_stat_fails_b detector_a))) = ''v100''
   \<and> info_class_names (get_model_info (snd (load_model load_stat_fails_b detector_a)))
        = [''cola-v2'', ''sprite-v2'']
   \<and> info_class_names (get_model_info detector_a) = [''cola'', ''sprite'']"
  by (simp add: detector_a_eq load_model_def load_stat_fails_b_def compute_version_def Let_def
      get_model_info_def model_a_def model_b_def dict_values_def)



section \<open>Properties of call sequences\<close>

lemma detect_version:
  "detect env d bytes ct it = Inr result \<Longrightarrow> model_version result = self_model_version d"
  by (auto simp: detect_def run_inference_def Let_def split: option.splits sum.splits)

lemma detect_needs_model:
  "detect env d bytes ct it = Inr result \<Longrightarrow> self_model d \<noteq> None"
  by (auto simp: detect_def split: option.splits)

lemma handle_inv_reload:
  assumes "handle_inv handles d" and "stat_ok_after_warmup (Reload env)"
  shows "handle_inv (handles @ installed_handle env d) (snd (load_model env d))"
  using assms
  by (auto simp: handle_inv_def installed_handle_def load_model_def compute_version_def
      stat_ok_after_warmup_def Let_def
      split: option.splits sum.splits if_splits)

text \<open>
  In a sequence of calls in which no \<open>stat\<close> raises after a warm-up, every result of
  \<open>detect\<close> carries the version of the handle whose model the call ran, and that
  handle was installed with model and version together by an earlier reload.
\<close>

lemma versions_consistent_if_stat_ok:
  assumes "list_all stat_ok_after_warmup calls" and "handle_inv handles d"
  shows "versions_consistent handles calls d"
  using assms
proof (induction handles calls d rule: versions_consistent.induct)
  case (1 handles d)
  show ?case by simp
next
  case (2 handles env calls d)
  then show ?case
    by (simp add: handle_inv_reload)
next
  case (3 handles env bytes ct it calls d)
  have "result_from_handle handles d (detect env d bytes ct it)"
  proof (cases "detect env d bytes ct it")
    case (Inl e)
    then show ?thesis by (simp add: result_from_handle_def)
  next
    case (Inr result)
    then show ?thesis
      using detect_version [OF Inr] detect_needs_model [OF Inr] "3.prems"(2)
      by (auto simp: result_from_handle_def handle_inv_def split: option.splits)
  qed
  with 3 show ?case by simp
next
  case (4 handles mapping calls d)
  have "handle_inv handles (update_class_mapping mapping d)"
    using "4.prems"(2) by (simp add: handle_inv_def update_class_mapping_def split: option.splits)
  with 4 show ?case by simp
qed

theorem versions_consistent_witness:
  "list_all stat_ok_after_warmup consistent_calls
   \<and> handle_inv [] (Detector_init example_config)
   \<and> versions_consistent [] consistent_calls (Detector_init example_config)"
proof -
  have a: "list_all stat_ok_after_warmup consistent_calls"
    by (simp add: consistent_calls_def stat_ok_after_warmup_def load_ok_a_def load_missing_def)
  have b: "handle_inv [] (Detector_init example_config)"
    by (simp add: handle_inv_def Detector_init_def)
  show ?thesis
    using a b versions_consistent_if_stat_ok [OF a b] by simp
qed

lemma detector_b_eq:
  "snd (load_model load_stat_fails_b detector_a) =
    \<lparr>config = example_config, self_model = Some model_b,
      self_model_version = ''v100'', self_class_mapping = []\<rparr>"
  by (simp add: detector_a_eq load_model_def load_stat_fails_b_def compute_version_def Let_def)

lemma stale_detect:
  "detect one_box_env (snd (load_model load_stat_fails_b detector_a)) ''jpeg'' None None =
     Inr \<lparr>detections = [\<lparr>class_id = 0, class_name = ''cola-v2'', confidence = 95 / 100,
              x1 = 100 / 640, y1 = 100 / 480, x2 = 200 / 640, y2 = 200 / 480\<rparr>],
          inference_time_ms = 3, model_version = ''v100''\<rparr>"
  unfolding detector_b_eq
  by (simp add: detect_def one_box_env_def py_or_def run_inference_def parse_results_def
      parse_box_def py_truediv_def py_int_def lookup_class_name_def dict_contains_def
      dict_get_def model_b_def example_config_def Let_def)

text \<open>
  Claim C2.  The version in a result is the version of the handle the call used, and
  that handle was installed with model and version together.  The code does so in
  every sequence in which no \<open>stat\<close> raises after a warm-up
  (\<open>versions_consistent_if_stat_ok\<close>).  Evaluated on the sequence: a reload that
  installs \<open>model_a\<close> as \<open>v100\<close>, a reload of \<open>model_b\<close> whose \<open>stat\<close> raises, a
  \<open>detect\<close>.  The result carries the names of \<open>model_b\<close> and the version \<open>v100\<close>, and
  no reload installed \<open>model_b\<close> with a version.
\<close>

theorem stale_version_after_failed_reload:
  "installed_handle load_ok_a (Detector_init example_config) = [(model_a, ''v100'')]
   \<and> load_model load_stat_fails_b detector_a = (False, detector_a\<lparr>self_model := Some model_b\<rparr>)
   \<and> installed_handle load_stat_fails_b detector_a = []
   \<and> detect one_box_env (snd (load_model load_stat_fails_b detector_a)) ''jpeg'' None None =
       Inr \<lparr>detections = [\<lparr>class_id = 0, class_name = ''cola-v2'', confidence = 95 / 100,
              x1 = 100 / 640, y1 = 100 / 480, x2 = 200 / 640, y2 = 200 / 480\<rparr>],
            inference_time_ms = 3, model_version = ''v100''\<rparr>
   \<and> \<not> versions_consistent [] stale_version_calls (Detector_init example_config)"
proof -
  have a: "installed_handle load_ok_a (Detector_init example_config) = [(model_a, ''v100'')]"
    using detector_a_eq
    by (simp add: installed_handle_def detector_a_def)
       (simp add: load_model_def load_ok_a_def compute_version_def Let_def)
  have b: "load_model load_stat_fails_b detector_a = (False, detector_a\<lparr>self_model := Some model_b\<rparr>)"
    by (simp add: detector_a_eq load_model_def load_stat_fails_b_def compute_version_def Let_def)
  have c: "installed_handle load_stat_fails_b detector_a = []"
    by (simp add: installed_handle_def b)
  have ne: "model_b \<noteq> model_a"
    by (simp add: model_a_def model_b_def)
  have r: "\<not> result_from_handle [(model_a, ''v100'')]
              (snd (load_model load_stat_fails_b detector_a))
              (detect one_box_env (snd (load_model load_stat_fails_b detector_a)) ''jpeg'' None None)"
    unfolding stale_detect
    using ne by (simp add: result_from_handle_def detector_b_eq)
  have d: "\<not> versions_consistent [] stale_version_calls (Detector_init example_config)"
    using a c r
    by (simp add: stale_version_calls_def detector_a_def [symmetric])
  show ?thesis using a b c d stale_detect by simp
qed


section \<open>Properties of the detector without a model\<close>

lemma never_installed_no_model:
  assumes "list_all fails_before_install calls" and "self_model d = None"
  shows "self_model (run_calls calls d) = None"
  using assms
proof (induction calls d rule: run_calls.induct)
  case (2 env calls d)
  have "load_model env d = (False, d)"
    using "2.prems"(1)
    by (auto simp: fails_before_install_def load_model_def Let_def split: sum.splits)
  with 2 show ?case by simp
qed (simp_all add: update_class_mapping_def)

text \<open>
  While no model is loaded (\<open>self._model\<close> is \<open>None\<close>, as it is from construction for
  as long as every load fails at the path check, in the constructor or in the
  warm-up), \<open>HealthCheck\<close> answers unhealthy with status \<open>model_not_loaded\<close> and
  \<open>model_loaded\<close> false, \<open>Detect\<close> answers the \<open>UNAVAILABLE\<close> fault with an empty
  response (the engine's \<open>detect\<close> itself raises \<open>Model not loaded\<close>), and
  \<open>get_model_info\<close> returns the sentinel with version and architecture \<open>none\<close> and no
  class names.
\<close>

lemma no_model_loaded:
  assumes "self_model d = None"
  shows "HealthCheck start_time now d =
           \<lparr>healthy = False, status = ''model_not_loaded'', health_model_loaded = False,
            uptime_seconds = py_int (now - start_time)\<rparr>
       \<and> Detect env d request request_id =
           \<lparr>reply_code = UNAVAILABLE, reply_details = ''Model not loaded'',
            reply_message = DetectResponse_empty\<rparr>
       \<and> detect env d image_bytes ct it = Inl (RuntimeError ''Model not loaded'')
       \<and> get_model_info d =
           \<lparr>info_version = ''none'', info_architecture = ''none'', info_class_names = [],
            info_input_size = input_size (config d)\<rparr>"
  using assms
  by (simp add: HealthCheck_def Detect_def model_loaded_def detect_def
      get_model_info_def Let_def)

lemma no_model_loaded_after_failing_loads:
  "self_model (run_calls failing_calls (Detector_init example_config)) = None
   \<and> HealthCheck 10 (25 / 2) (run_calls failing_calls (Detector_init example_config)) =
           \<lparr>healthy = False, status = ''model_not_loaded'', health_model_loaded = False,
            uptime_seconds = 2\<rparr>
   \<and> Detect echo_env (run_calls failing_calls (Detector_init example_config))
         example_request ''1a2b3c4d'' =
           \<lparr>reply_code = UNAVAILABLE, reply_details = ''Model not loaded'',
            reply_message = DetectResponse_empty\<rparr>
   \<and> get_model_info (run_calls failing_calls (Detector_init example_config)) =
           \<lparr>info_version = ''none'', info_architecture = ''none'', info_class_names = [],
            info_input_size = 640\<rparr>"
proof -
  have f: "list_all fails_before_install failing_calls"
    by (simp add: failing_calls_def fails_before_install_def load_missing_def)
  have h: "self_model (run_calls failing_calls (Detector_init example_config)) = None"
    by (rule never_installed_no_model [OF f]) (simp add: Detector_init_def)
  have c: "input_size (config (run_calls failing_calls (Detector_init example_config))) = 640"
    by (simp add: failing_calls_def load_model_def load_missing_def update_class_mapping_def
        Detector_init_def example_config_def)
  have u: "py_int (25 / 2 - 10) = 2"
    by (simp add: py_int_def)
  show ?thesis
    using h u c no_model_loaded [OF h, of 10 "25 / 2" echo_env example_request
        "''1a2b3c4d''" "''jpeg''" None None]
    by simp
qed

text \<open>
  Claim C7.  When no model has ever been loaded successfully, \<open>HealthCheck\<close> answers
  unhealthy with status \<open>model_not_loaded\<close>, \<open>Detect\<close> answers the \<open>UNAVAILABLE\<close> fault
  and \<open>get_model_info\<close> returns the sentinel.  The code does so while \<open>self._model\<close>
  is \<open>None\<close> (\<open>no_model_loaded\<close>), but a load whose \<open>stat\<close> raises after the warm-up
  returns \<open>False\<close> and leaves its model installed.  Evaluated on a fresh detector
  whose only load fails in this way: \<open>HealthCheck\<close> answers healthy with
  \<open>model_loaded\<close> true, \<open>Detect\<close> answers \<open>OK\<close> with a detection under the version
  \<open>unknown\<close>, and \<open>get_model_info\<close> reports version \<open>unknown\<close> with the class names
  of the model.
\<close>

theorem failed_first_load_reports_loaded:
  "load_model load_stat_fails_b (Detector_init example_config) =
     (False, (Detector_init example_config)\<lparr>self_model := Some model_b\<rparr>)
   \<and> HealthCheck 10 (25 / 2) (snd (load_model load_stat_fails_b (Detector_init example_config))) =
       \<lparr>healthy = True, status = ''healthy'', health_model_loaded = True, uptime_seconds = 2\<rparr>
   \<and> reply_code (Detect one_box_env
         (snd (load_model load_stat_fails_b (Detector_init example_config)))
         example_request ''1a2b3c4d'') = OK
   \<and> map det_class_name (resp_detections (reply_message (Detect one_box_env
         (snd (load_model load_stat_fails_b (Detector_init example_config)))
         example_request ''1a2b3c4d''))) = [''cola-v2'']
   \<and> resp_model_version (reply_message (Detect one_box_env
         (snd (load_model load_stat_fails_b (Detector_init example_config)))
         example_request ''1a2b3c4d'')) = ''unknown''
   \<and> get_model_info (snd (load_model load_stat_fails_b (Detector_init example_config))) =
       \<lparr>info_version = ''unknown'', info_architecture = ''yolov8'',
        info_class_names = [''cola-v2'', ''sprite-v2''], info_input_size = 640\<rparr>"
proof -
  have l: "load_model load_stat_fails_b (Detector_init example_config) =
     (False, \<lparr>config = example_config, self_model = Some model_b,
              self_model_version = ''unknown'', self_class_mapping = []\<rparr>)"
    by (simp add: load_model_def load_stat_fails_b_def compute_version_def Detector_init_def
        Let_def)
  have r: "Detect one_box_env
         \<lparr>config = example_config, self_model = Some model_b,
          self_model_version = ''unknown'', self_class_mapping = []\<rparr>
         example_request ''1a2b3c4d'' =
       \<lparr>reply_code = OK, reply_details = [],
        reply_message =
          \<lparr>resp_detections =
            [\<lparr>det_class_name = ''cola-v2'', det_sku_id = [], det_class_id = 0,
              det_confidence = 95 / 100,
              det_bbox = \<lparr>bb_x1 = 100 / 640, bb_y1 = 100 / 480,
                          bb_x2 = 200 / 640, bb_y2 = 200 / 480\<rparr>\<rparr>],
           resp_model_version = ''unknown'', resp_inference_time_ms = 3,
           resp_request_id = ''1a2b3c4d''\<rparr>\<rparr>"
    by (simp add: Detect_def model_loaded_def example_request_def detect_def one_box_env_def
        py_or_def example_config_def run_inference_def parse_results_def parse_box_def
        py_truediv_def py_int_def lookup_class_name_def dict_contains_def dict_get_def
        model_b_def detect_reply_def build_response_def to_pb_detection_def lookup_sku_id_def
        Let_def)
  show ?thesis
    unfolding l snd_conv r
    by (simp add: Detector_init_def HealthCheck_def model_loaded_def py_int_def
        get_model_info_def model_b_def dict_values_def example_config_def)
qed


section \<open>Properties of the thresholds\<close>

lemma py_or_positive:
  "py_or (if 0 < x then Some x else None) dflt = (if 0 < x then x else dflt)"
  by (simp add: py_or_def)

lemma Detect_with_model:
  assumes "self_model d = Some m" and "image_open env (req_image request) = Inr img"
  shows "Detect env d request request_id =
           detect_reply d request_id
            (run_inference env d m img
              (py_or (if 0 < req_confidence_threshold request
                      then Some (req_confidence_threshold request) else None)
                 (default_confidence (config d)))
              (py_or (if 0 < req_iou_threshold request
                      then Some (req_iou_threshold request) else None)
                 (default_iou (config d))))"
  using assms
  by (simp add: detect_def Detect_def model_loaded_def Let_def)

text \<open>
  Claim C8, as amended.  Through the \<open>Detect\<close> RPC a threshold of the request that is
  not positive is replaced by the configured default and a positive one is used as
  given.  The engine's \<open>detect\<close> itself replaces a threshold only when it is absent
  or zero; any other value it is called with, a negative one too, is used as given.
\<close>

theorem thresholds_in_force:
  assumes "self_model d = Some m" and "image_open env (req_image request) = Inr img"
  shows "detect env d (req_image request) ct it =
           run_inference env d m img
             (case ct of None \<Rightarrow> default_confidence (config d)
                       | Some t \<Rightarrow> if t = 0 then default_confidence (config d) else t)
             (case it of None \<Rightarrow> default_iou (config d)
                       | Some t \<Rightarrow> if t = 0 then default_iou (config d) else t)
       \<and> Detect env d request request_id =
           detect_reply d request_id
            (run_inference env d m img
              (if 0 < req_confidence_threshold request then req_confidence_threshold request
               else default_confidence (config d))
              (if 0 < req_iou_threshold request then req_iou_threshold request
               else default_iou (config d)))"
proof -
  have engine: "detect env d (req_image request) ct it =
           run_inference env d m img
             (case ct of None \<Rightarrow> default_confidence (config d)
                       | Some t \<Rightarrow> if t = 0 then default_confidence (config d) else t)
             (case it of None \<Rightarrow> default_iou (config d)
                       | Some t \<Rightarrow> if t = 0 then default_iou (config d) else t)"
    using assms by (simp add: detect_def py_or_def Let_def)
  have rpc: "Detect env d request request_id =
           detect_reply d request_id
            (run_inference env d m img
              (if 0 < req_confidence_threshold request then req_confidence_threshold request
               else default_confidence (config d))
              (if 0 < req_iou_threshold request then req_iou_threshold request
               else default_iou (config d)))"
    unfolding Detect_with_model [OF assms] py_or_positive
    by simp
  show ?thesis
    using engine rpc by simp
qed


text \<open>
  The claim as stated fails on the engine: called with the negative thresholds
  \<open>-1/2\<close> and \<open>-1/4\<close>, \<open>detect\<close> hands exactly these to the inference capability,
  not the defaults \<open>1/2\<close> and \<open>45/100\<close>.
\<close>

theorem negative_threshold_counterexample:
  "map (\<lambda>r. (confidence r, x1 r))
     (detections (projr (detect echo_env detector_a ''jpeg'' (Some (- (1 / 2))) (Some (- (1 / 4))))))
     = [(- (1 / 2), - (1 / 4))]
   \<and> default_confidence (config detector_a) = 1 / 2
   \<and> default_iou (config detector_a) = 45 / 100"
  by (simp add: detector_a_eq detect_def echo_env_def py_or_def run_inference_def
      parse_results_def parse_box_def py_truediv_def example_config_def Let_def)

theorem thresholds_in_force_witness:
  "self_model detector_a = Some model_a
   \<and> image_open echo_env ''jpeg'' = Inr \<lparr>img_width = 1, img_height = 1\<rparr>
   \<and> map (\<lambda>p. (det_confidence p, bb_x1 (det_bbox p)))
       (resp_detections (reply_message (Detect echo_env detector_a
          \<lparr>req_image = ''jpeg'', req_device_id = ''cam-1'', req_confidence_threshold = - 1,
           req_iou_threshold = 3 / 10\<rparr> ''1a2b3c4d''))) = [(1 / 2, 3 / 10)]
   \<and> map (\<lambda>r. (confidence r, x1 r))
       (detections (projr (detect echo_env detector_a ''jpeg'' (Some 0) None)))
       = [(1 / 2, 45 / 100)]"
proof -
  have h1: "self_model detector_a = Some model_a"
    by (simp add: detector_a_eq)
  have h2: "image_open echo_env (req_image \<lparr>req_image = ''jpeg'', req_device_id = ''cam-1'',
          req_confidence_threshold = - 1, req_iou_threshold = 3 / 10\<rparr>)
        = Inr \<lparr>img_width = 1, img_height = 1\<rparr>"
    by (simp add: echo_env_def)
  have h3: "image_open echo_env ''jpeg'' = Inr \<lparr>img_width = 1, img_height = 1\<rparr>"
    by (simp add: echo_env_def)
  have r: "\<And>c i. run_inference echo_env detector_a model_a \<lparr>img_width = 1, img_height = 1\<rparr> c i =
     Inr \<lparr>detections = [\<lparr>class_id = 0, class_name = ''cola'', confidence = c, x1 = i, y1 = 0,
             x2 = 1, y2 = 1\<rparr>], inference_time_ms = 0, model_version = ''v100''\<rparr>"
    by (simp add: run_inference_def echo_env_def parse_results_def parse_box_def py_truediv_def
        detector_a_eq py_int_def lookup_class_name_def dict_contains_def dict_get_def model_a_def
        Let_def)
  have c: "default_confidence (config detector_a) = 1 / 2"
    "default_iou (config detector_a) = 45 / 100"
    by (simp_all add: detector_a_eq example_config_def)
  note t = thresholds_in_force [OF h1 h2, of "Some 0" None "''1a2b3c4d''"]
  have t1: "detect echo_env detector_a ''jpeg'' (Some 0) None =
     Inr \<lparr>detections = [\<lparr>class_id = 0, class_name = ''cola'', confidence = 1 / 2,
             x1 = 45 / 100, y1 = 0, x2 = 1, y2 = 1\<rparr>],
          inference_time_ms = 0, model_version = ''v100''\<rparr>"
    using t by (simp add: r c)
  have t2: "Detect echo_env detector_a
          \<lparr>req_image = ''jpeg'', req_device_id = ''cam-1'', req_confidence_threshold = - 1,
           req_iou_threshold = 3 / 10\<rparr> ''1a2b3c4d'' =
        detect_reply detector_a ''1a2b3c4d''
         (Inr \<lparr>detections = [\<lparr>class_id = 0, class_name = ''cola'', confidence = 1 / 2,
             x1 = 3 / 10, y1 = 0, x2 = 1, y2 = 1\<rparr>],
          inference_time_ms = 0, model_version = ''v100''\<rparr>)"
    using t by (simp add: r c)
  show ?thesis
    using h1 h3
    by (simp add: t1 t2 detect_reply_def build_response_def to_pb_detection_def)
qed


section \<open>Properties of name resolution\<close>

lemma lookup_pair:
  "(lookup_class_name mapping m cid, lookup_sku_id mapping cid) = resolve_name_and_sku mapping m cid"
  by (simp add: lookup_class_name_def lookup_sku_id_def resolve_name_and_sku_def dict_contains_def
      dict_get_def split: option.split)

lemma parse_boxes_ok:
  "w \<noteq> 0 \<Longrightarrow> h \<noteq> 0 \<Longrightarrow>
   \<exists>dets. parse_boxes d m w h bs = Inr dets
     \<and> map (\<lambda>r. (class_id r, class_name r)) dets =
        map (\<lambda>b. (py_int (box_cls b), lookup_class_name (self_class_mapping d) m (py_int (box_cls b)))) bs"
  by (induction bs) (auto simp: parse_box_def py_truediv_def Let_def split: prod.splits)

text \<open>
  Claim C5.  For every raw detection of a \<open>Detect\<close> call, in the order of the model's
  output, the response carries the class id with the display name and the external
  id resolved from the class mapping first: the entry of the mapping when the class
  id has one, and otherwise the model's intrinsic name with an empty external id.
\<close>

theorem Detect_resolves_names:
  assumes "self_model d = Some m"
    and "image_open env (req_image request) = Inr img"
    and "img_width img \<noteq> 0" and "img_height img \<noteq> 0"
    and "predict env m img
           (if 0 < req_confidence_threshold request then req_confidence_threshold request
            else default_confidence (config d))
           (if 0 < req_iou_threshold request then req_iou_threshold request
            else default_iou (config d))
           (input_size (config d)) = Inr (result # others)"
    and "boxes result = Some bs"
  shows "reply_code (Detect env d request request_id) = OK
       \<and> map (\<lambda>p. (det_class_id p, det_class_name p, det_sku_id p))
           (resp_detections (reply_message (Detect env d request request_id))) =
         map (\<lambda>b. (py_int (box_cls b),
                    resolve_name_and_sku (self_class_mapping d) m (py_int (box_cls b)))) bs"
proof -
  obtain dets where dets: "parse_boxes d m (img_width img) (img_height img) bs = Inr dets"
    and nm: "map (\<lambda>r. (class_id r, class_name r)) dets =
        map (\<lambda>b. (py_int (box_cls b), lookup_class_name (self_class_mapping d) m (py_int (box_cls b)))) bs"
    using parse_boxes_ok [OF assms(3) assms(4)] by blast
  have inf: "run_inference env d m img
           (if 0 < req_confidence_threshold request then req_confidence_threshold request
            else default_confidence (config d))
           (if 0 < req_iou_threshold request then req_iou_threshold request
            else default_iou (config d)) =
        Inr \<lparr>detections = dets,
              inference_time_ms = (snd (perf_counter env) - fst (perf_counter env)) * 1000,
              model_version = self_model_version d\<rparr>"
    unfolding run_inference_def assms(5)
    using assms(6) dets by (simp add: parse_results_def)
  have run: "Detect env d request request_id =
      detect_reply d request_id
        (Inr \<lparr>detections = dets,
              inference_time_ms = (snd (perf_counter env) - fst (perf_counter env)) * 1000,
              model_version = self_model_version d\<rparr>)"
    unfolding Detect_with_model [OF assms(1) assms(2)] py_or_positive inf
    by simp
  have "map (\<lambda>p. (det_class_id p, det_class_name p, det_sku_id p)) (map (to_pb_detection d) dets)
      = map (\<lambda>r. (class_id r, class_name r, lookup_sku_id (self_class_mapping d) (class_id r))) dets"
    by (simp add: to_pb_detection_def)
  also have "\<dots> = map (\<lambda>(c, n). (c, n, lookup_sku_id (self_class_mapping d) c))
                    (map (\<lambda>r. (class_id r, class_name r)) dets)"
    by simp
  also have "\<dots> = map (\<lambda>b. (py_int (box_cls b),
                    resolve_name_and_sku (self_class_mapping d) m (py_int (box_cls b)))) bs"
    by (simp add: nm lookup_pair [symmetric])
  finally show ?thesis
    by (simp add: run detect_reply_def build_response_def)
qed



theorem Detect_resolves_names_witness:
  "map (\<lambda>p. (det_class_id p, det_class_name p, det_sku_id p))
     (resp_detections (reply_message (Detect one_box_env detector_a example_request ''1a2b3c4d'')))
     = [(0, ''cola'', [])]
   \<and> map (\<lambda>p. (det_class_id p, det_class_name p, det_sku_id p))
     (resp_detections (reply_message
        (Detect one_box_env (snd (SyncClasses new_classes detector_a)) example_request ''1a2b3c4d'')))
     = [(0, ''Coca-Cola'', ''sku-001'')]"
proof -
  define bs where "bs = [\<lparr>box_cls = 0, box_conf = 95 / 100, box_xyxy = (100, 100, 200, 200)\<rparr>]"
  define img where "img = \<lparr>img_width = 640, img_height = 480\<rparr>"
  have p: "\<And>d. predict one_box_env model_a img
           (if 0 < req_confidence_threshold example_request
            then req_confidence_threshold example_request else default_confidence (config d))
           (if 0 < req_iou_threshold example_request
            then req_iou_threshold example_request else default_iou (config d))
           (input_size (config d)) = Inr (\<lparr>boxes = Some bs\<rparr> # [])"
    by (simp add: one_box_env_def bs_def)
  have i: "image_open one_box_env (req_image example_request) = Inr img"
    by (simp add: one_box_env_def img_def)
  have wh: "img_width img \<noteq> 0" "img_height img \<noteq> 0"
    by (simp_all add: img_def)
  have b: "boxes \<lparr>boxes = Some bs\<rparr> = Some bs"
    by simp
  have m1: "self_model detector_a = Some model_a"
    by (simp add: detector_a_eq)
  have m2: "self_model (snd (SyncClasses new_classes detector_a)) = Some model_a"
    by (simp add: SyncClasses_def update_class_mapping_def detector_a_eq Let_def)
  have c1: "self_class_mapping detector_a = []"
    by (simp add: detector_a_eq)
  have c2: "self_class_mapping (snd (SyncClasses new_classes detector_a))
      = [(0, (''sku-001'', ''Coca-Cola''))]"
    by (simp add: SyncClasses_def update_class_mapping_def new_classes_def dict_setitem_def Let_def)
  have z: "py_int 0 = 0"
    by (simp add: py_int_def)
  show ?thesis
    using Detect_resolves_names [OF m1 i wh p b, of "''1a2b3c4d''"]
      Detect_resolves_names [OF m2 i wh p b, of "''1a2b3c4d''"]
    by (simp add: c1 c2 bs_def z resolve_name_and_sku_def model_a_def)
qed

section \<open>Properties of the class mapping during a call\<close>

lemma parse_boxes_names:
  "parse_boxes d m w h bs = Inr dets \<Longrightarrow>
   list_all (\<lambda>r. class_name r = lookup_class_name (self_class_mapping d) m (class_id r)) dets"
proof (induction bs arbitrary: dets)
  case Nil
  then show ?case by simp
next
  case (Cons b bs)
  then show ?case
    by (auto simp: parse_box_def py_truediv_def Let_def split: prod.splits sum.splits if_splits)
qed

lemma detect_names:
  assumes "detect env d bytes ct it = Inr result" and "self_model d = Some m"
  shows "list_all (\<lambda>r. class_name r = lookup_class_name (self_class_mapping d) m (class_id r))
           (detections result)"
proof -
  from assms obtain img conf iou where r: "run_inference env d m img conf iou = Inr result"
    by (auto simp: detect_def Let_def split: sum.splits)
  then obtain results dets where "parse_results d m img results = Inr dets"
    and dets: "detections result = dets"
    by (auto simp: run_inference_def split: sum.splits)
  then have "list_all (\<lambda>r. class_name r = lookup_class_name (self_class_mapping d) m (class_id r)) dets"
    by (auto simp: parse_results_def parse_boxes_names split: list.splits option.splits)
  with dets show ?thesis by simp
qed

lemma Detect_resolved_sequential:
  assumes "self_model d = Some m"
  shows "resolved_from (self_class_mapping d) m (reply_message (Detect env d request request_id))"
proof (cases "detect env d (req_image request)
        (if req_confidence_threshold request > 0 then Some (req_confidence_threshold request) else None)
        (if req_iou_threshold request > 0 then Some (req_iou_threshold request) else None)")
  case (Inl e)
  then show ?thesis
    by (simp add: Detect_def detect_reply_def resolved_from_def DetectResponse_empty_def Let_def)
next
  case (Inr result)
  have "list_all (\<lambda>r. class_name r = lookup_class_name (self_class_mapping d) m (class_id r))
         (detections result)"
    using detect_names [OF Inr assms] .
  then show ?thesis
    using Inr assms
    by (simp add: Detect_def detect_reply_def resolved_from_def model_loaded_def
        build_response_def to_pb_detection_def list_all_iff Let_def)
qed

text \<open>
  When every read returns the same mapping, the call with its reads computes what
  the call on a detector holding that mapping computes.
\<close>

lemma read_class_name_const:
  assumes "\<forall>k. reads k = mp"
  shows "fst (read_class_name reads k m cid) = Inr (lookup_class_name mp m cid)"
  using assms
  by (auto simp: read_class_name_def lookup_class_name_def dict_contains_def split: option.splits)

lemma parse_box_reading_const:
  assumes "\<forall>k. reads k = mp"
  shows "fst (parse_box_reading reads k m w h b) = parse_box (d\<lparr>self_class_mapping := mp\<rparr>) m w h b"
proof -
  obtain r k' where r: "read_class_name reads k m (py_int (box_cls b)) = (r, k')"
    by (cases "read_class_name reads k m (py_int (box_cls b))")
  with read_class_name_const [OF assms, of k m "py_int (box_cls b)"]
  have "r = Inr (lookup_class_name mp m (py_int (box_cls b)))" by simp
  with r show ?thesis
    by (simp add: parse_box_reading_def parse_box_def Let_def split: prod.splits sum.splits)
qed

lemma parse_boxes_reading_const:
  assumes "\<forall>k. reads k = mp"
  shows "fst (parse_boxes_reading reads k m w h bs) = parse_boxes (d\<lparr>self_class_mapping := mp\<rparr>) m w h bs"
proof (induction bs arbitrary: k)
  case Nil
  show ?case by simp
next
  case (Cons b bs)
  obtain r k' where r: "parse_box_reading reads k m w h b = (r, k')"
    by (cases "parse_box_reading reads k m w h b")
  with parse_box_reading_const [OF assms, of k m w h b d]
  have pb: "parse_box (d\<lparr>self_class_mapping := mp\<rparr>) m w h b = r" by simp
  obtain rs k'' where rs: "parse_boxes_reading reads k' m w h bs = (rs, k'')"
    by (cases "parse_boxes_reading reads k' m w h bs")
  with Cons.IH [of k']
  have pbs: "parse_boxes (d\<lparr>self_class_mapping := mp\<rparr>) m w h bs = rs" by simp
  show ?case
    by (simp add: r rs pb pbs split: sum.splits)
qed

lemma detect_reading_const:
  assumes "\<forall>k. reads k = mp"
  shows "fst (detect_reading env d reads k bytes ct it) =
           detect env (d\<lparr>self_class_mapping := mp\<rparr>) bytes ct it"
proof -
  have pr: "fst (parse_results_reading reads k m img results) =
        parse_results (d\<lparr>self_class_mapping := mp\<rparr>) m img results" for m img results
    using parse_boxes_reading_const [OF assms, of k m _ _ _ d]
    by (simp add: parse_results_reading_def parse_results_def split: list.splits option.splits)
  show ?thesis
  proof (cases "self_model d")
    case None
    then show ?thesis by (simp add: detect_reading_def detect_def)
  next
    case (Some m)
    show ?thesis
    proof (cases "image_open env bytes")
      case (Inl e)
      with Some show ?thesis by (simp add: detect_reading_def detect_def Let_def)
    next
      case (Inr img)
      note img = this
      show ?thesis
      proof (cases "predict env m img (py_or ct (default_confidence (config d)))
                       (py_or it (default_iou (config d))) (input_size (config d))")
        case (Inl e)
        with Some img show ?thesis
          by (simp add: detect_reading_def detect_def run_inference_def Let_def)
      next
        case (Inr results)
        obtain r k' where r: "parse_results_reading reads k m img results = (r, k')"
          by (cases "parse_results_reading reads k m img results")
        with pr [of m img results]
        have "parse_results (d\<lparr>self_class_mapping := mp\<rparr>) m img results = r" by simp
        with Some img Inr r show ?thesis
          by (simp add: detect_reading_def detect_def run_inference_def Let_def split: sum.splits)
      qed
    qed
  qed
qed

lemma read_sku_id_const:
  assumes "\<forall>k. reads k = mp"
  shows "fst (read_sku_id reads k cid) = Inr (lookup_sku_id mp cid)"
  using assms
  by (auto simp: read_sku_id_def lookup_sku_id_def dict_contains_def split: option.splits)

lemma build_detections_reading_const:
  assumes "\<forall>k. reads k = mp"
  shows "fst (build_detections_reading reads k dets) =
           Inr (map (to_pb_detection (d\<lparr>self_class_mapping := mp\<rparr>)) dets)"
proof (induction dets arbitrary: k)
  case Nil
  show ?case by simp
next
  case (Cons det dets)
  obtain r k' where r: "read_sku_id reads k (class_id det) = (r, k')"
    by (cases "read_sku_id reads k (class_id det)")
  with read_sku_id_const [OF assms, of k "class_id det"]
  have r': "r = Inr (lookup_sku_id mp (class_id det))" by simp
  obtain rs k'' where rs: "build_detections_reading reads k' dets = (rs, k'')"
    by (cases "build_detections_reading reads k' dets")
  with Cons.IH [of k']
  have rs': "rs = Inr (map (to_pb_detection (d\<lparr>self_class_mapping := mp\<rparr>)) dets)" by simp
  show ?case
    by (simp add: r r' rs rs' to_pb_detection_def)
qed

lemma Detect_reading_const:
  assumes "\<forall>k. reads k = mp"
  shows "Detect_reading env d reads request request_id =
           Detect env (d\<lparr>self_class_mapping := mp\<rparr>) request request_id"
proof (cases "self_model d")
  case None
  then show ?thesis
    by (simp add: Detect_reading_def Detect_def model_loaded_def)
next
  case (Some m)
  define ct where "ct = (if req_confidence_threshold request > 0
                               then Some (req_confidence_threshold request) else None)"
  define it where "it = (if req_iou_threshold request > 0
                              then Some (req_iou_threshold request) else None)"
  obtain r k where r: "detect_reading env d reads 0 (req_image request) ct it = (r, k)"
    by (cases "detect_reading env d reads 0 (req_image request) ct it")
  with detect_reading_const [OF assms, of env d 0 "req_image request" ct it]
  have dr: "detect env (d\<lparr>self_class_mapping := mp\<rparr>) (req_image request) ct it = r" by simp
  show ?thesis
  proof (cases r)
    case (Inl e)
    with Some r dr show ?thesis
      by (simp add: Detect_reading_def Detect_def model_loaded_def
          detect_reply_def ct_def it_def Let_def)
  next
    case (Inr result)
    obtain q k' where q: "build_detections_reading reads k (detections result) = (q, k')"
      by (cases "build_detections_reading reads k (detections result)")
    with build_detections_reading_const [OF assms, of k "detections result" d]
    have "q = Inr (map (to_pb_detection (d\<lparr>self_class_mapping := mp\<rparr>)) (detections result))"
      by simp
    with Some r dr Inr q show ?thesis
      by (simp add: Detect_reading_def Detect_def model_loaded_def
          detect_reply_def build_response_def ct_def it_def Let_def)
  qed
qed


text \<open>
  Claim C4, as amended.  A \<open>Detect\<close> call during which every read of
  \<open>self._class_mapping\<close> (two for a box in the engine's loop, two for a detection in
  the response loop of the servicer) returns the same mapping value answers as the
  call on a detector that holds this value does, and resolves all display names and
  external ids of its response from this one value.
\<close>

theorem Detect_constant_reads_snapshot:
  assumes "self_model d = Some m" and "\<forall>k. reads k = mp"
  shows "Detect_reading env d reads request request_id =
           Detect env (d\<lparr>self_class_mapping := mp\<rparr>) request request_id
       \<and> resolved_from mp m (reply_message (Detect_reading env d reads request request_id))"
proof -
  have m: "self_model (d\<lparr>self_class_mapping := mp\<rparr>) = Some m"
    using assms(1) by simp
  have e: "Detect_reading env d reads request request_id =
           Detect env (d\<lparr>self_class_mapping := mp\<rparr>) request request_id"
    by (rule Detect_reading_const [OF assms(2)])
  show ?thesis
    using Detect_resolved_sequential [OF m, of env request request_id] e by simp
qed

lemma mappings_eq:
  "old_mapping = [(0, (''sku-000'', ''Cola (old)''))]"
  "new_mapping = [(0, (''sku-001'', ''Coca-Cola''))]"
  by (simp_all add: old_mapping_def new_mapping_def old_classes_def new_classes_def
      dict_setitem_def)

lemma reads_switch_simps:
  "reads_switch 0 = old_mapping" "reads_switch (Suc 0) = old_mapping"
  "reads_switch (Suc (Suc k)) = new_mapping"
  by (simp_all add: reads_switch_def)

lemma two_box_reply:
  "Detect_reading two_box_env detector_a reads_switch example_request ''1a2b3c4d'' =
     \<lparr>reply_code = OK, reply_details = [],
      reply_message =
       \<lparr>resp_detections =
          [\<lparr>det_class_name = ''Cola (old)'', det_sku_id = ''sku-001'', det_class_id = 0,
            det_confidence = 95 / 100,
            det_bbox = \<lparr>bb_x1 = 100 / 640, bb_y1 = 100 / 480, bb_x2 = 200 / 640, bb_y2 = 200 / 480\<rparr>\<rparr>,
           \<lparr>det_class_name = ''Coca-Cola'', det_sku_id = ''sku-001'', det_class_id = 0,
            det_confidence = 90 / 100,
            det_bbox = \<lparr>bb_x1 = 300 / 640, bb_y1 = 100 / 480, bb_x2 = 400 / 640, bb_y2 = 200 / 480\<rparr>\<rparr>],
        resp_model_version = ''v100'', resp_inference_time_ms = 3,
        resp_request_id = ''1a2b3c4d''\<rparr>\<rparr>"
  by (simp add: Detect_reading_def detector_a_eq model_loaded_def example_request_def
      detect_reading_def two_box_env_def py_or_def example_config_def parse_results_reading_def
      parse_box_reading_def py_truediv_def py_int_def read_class_name_def read_sku_id_def
      dict_contains_def reads_switch_simps mappings_eq Let_def)

lemma one_box_reply:
  "Detect_reading one_box_env detector_a reads_switch example_request ''1a2b3c4d'' =
     \<lparr>reply_code = OK, reply_details = [],
      reply_message =
       \<lparr>resp_detections =
          [\<lparr>det_class_name = ''Cola (old)'', det_sku_id = ''sku-001'', det_class_id = 0,
            det_confidence = 95 / 100,
            det_bbox = \<lparr>bb_x1 = 100 / 640, bb_y1 = 100 / 480, bb_x2 = 200 / 640, bb_y2 = 200 / 480\<rparr>\<rparr>],
        resp_model_version = ''v100'', resp_inference_time_ms = 3,
        resp_request_id = ''1a2b3c4d''\<rparr>\<rparr>"
  by (simp add: Detect_reading_def detector_a_eq model_loaded_def example_request_def
      detect_reading_def one_box_env_def py_or_def example_config_def parse_results_reading_def
      parse_box_reading_def py_truediv_def py_int_def read_class_name_def read_sku_id_def
      dict_contains_def reads_switch_simps mappings_eq Let_def)

text \<open>
  The claim as stated fails, since the code takes no snapshot.  When the new mapping
  replaces the old one after the engine has named its first box, a response with two
  boxes of one class carries the old display name for the first and the new one for
  the second, with the new external id for both; with one box, the display name is
  the old one and the external id the new one.  Neither response is resolved from
  the old mapping, and neither from the new one.
\<close>

theorem mixed_reads_counterexample:
  "map (\<lambda>p. (det_class_name p, det_sku_id p))
     (resp_detections (reply_message
        (Detect_reading two_box_env detector_a reads_switch example_request ''1a2b3c4d'')))
     = [(''Cola (old)'', ''sku-001''), (''Coca-Cola'', ''sku-001'')]
   \<and> \<not> resolved_from old_mapping model_a
         (reply_message
            (Detect_reading two_box_env detector_a reads_switch example_request ''1a2b3c4d''))
   \<and> \<not> resolved_from new_mapping model_a
         (reply_message
            (Detect_reading two_box_env detector_a reads_switch example_request ''1a2b3c4d''))
   \<and> map (\<lambda>p. (det_class_name p, det_sku_id p))
     (resp_detections (reply_message
        (Detect_reading one_box_env detector_a reads_switch example_request ''1a2b3c4d'')))
     = [(''Cola (old)'', ''sku-001'')]
   \<and> \<not> resolved_from old_mapping model_a
         (reply_message
            (Detect_reading one_box_env detector_a reads_switch example_request ''1a2b3c4d''))
   \<and> \<not> resolved_from new_mapping model_a
         (reply_message
            (Detect_reading one_box_env detector_a reads_switch example_request ''1a2b3c4d''))"
  unfolding two_box_reply one_box_reply
  by (simp add: resolved_from_def lookup_class_name_def lookup_sku_id_def dict_contains_def
      mappings_eq)

theorem Detect_constant_reads_snapshot_witness:
  "self_model detector_a = Some model_a
   \<and> map (\<lambda>p. (det_class_name p, det_sku_id p))
       (resp_detections (reply_message
          (Detect_reading two_box_env detector_a (\<lambda>k. new_mapping) example_request ''1a2b3c4d'')))
       = [(''Coca-Cola'', ''sku-001''), (''Coca-Cola'', ''sku-001'')]
   \<and> resolved_from new_mapping model_a
        (reply_message
          (Detect_reading two_box_env detector_a (\<lambda>k. new_mapping) example_request ''1a2b3c4d''))"
proof -
  have h1: "self_model detector_a = Some model_a"
    by (simp add: detector_a_eq)
  have h2: "\<forall>k. (\<lambda>k. new_mapping) k = new_mapping"
    by simp
  have r: "map (\<lambda>p. (det_class_name p, det_sku_id p))
       (resp_detections (reply_message
          (Detect_reading two_box_env detector_a (\<lambda>k. new_mapping) example_request ''1a2b3c4d'')))
       = [(''Coca-Cola'', ''sku-001''), (''Coca-Cola'', ''sku-001'')]"
    by (simp add: Detect_reading_def detector_a_eq model_loaded_def example_request_def
      detect_reading_def two_box_env_def py_or_def example_config_def parse_results_reading_def
      parse_box_reading_def py_truediv_def py_int_def read_class_name_def read_sku_id_def
      dict_contains_def mappings_eq Let_def)
  have c: "resolved_from new_mapping model_a
        (reply_message
          (Detect_reading two_box_env detector_a (\<lambda>k. new_mapping) example_request ''1a2b3c4d''))"
    using Detect_constant_reads_snapshot [OF h1 h2, of two_box_env example_request "''1a2b3c4d''"]
    by blast
  show ?thesis
    using h1 r c by (intro conjI)
qed

text \<open>
  When the mapping loses the key between the test \<open>class_id in self._class_mapping\<close>
  and the subscript, the subscript raises \<open>KeyError\<close> and the call ends in an
  \<open>INTERNAL\<close> fault.
\<close>

lemma key_removed_reply:
  "Detect_reading one_box_env detector_a reads_key_removed example_request ''1a2b3c4d'' =
     \<lparr>reply_code = INTERNAL, reply_details = ''0'', reply_message = DetectResponse_empty\<rparr>"
  by (simp add: Detect_reading_def detector_a_eq model_loaded_def example_request_def
      detect_reading_def one_box_env_def py_or_def example_config_def parse_results_reading_def
      parse_box_reading_def py_truediv_def py_int_def read_class_name_def
      dict_contains_def reads_key_removed_def mappings_eq str_exn_def str_int_def
      str_nat.simps digit_char_def Let_def)


section \<open>Properties of the watcher\<close>




lemma watch_loop_last_trace:
  assumes "\<forall>p \<in> set polls. \<not> poll_stopped p"
  shows "watch_loop on_change polls ws = last (ws # watch_trace on_change polls ws)"
  using assms
  by (induction polls arbitrary: ws) auto









section \<open>Properties of the model lock\<close>

lemma detect_step_lock:
  assumes "detect_step env request rid pc d = Some (pc', op)"
  shows "(op = Acquire \<longrightarrow> (pc = D_loaded_acquire \<or> pc = D_acquire) \<and> \<not> detect_holds pc \<and> detect_holds pc')
   \<and> (op = Release \<longrightarrow> detect_holds pc \<and> \<not> detect_holds pc')
   \<and> (op = Keep \<longrightarrow> detect_holds pc' = detect_holds pc)"
  using assms
  by (cases pc) (auto simp: if_distrib [where f = detect_holds] split: option.splits sum.splits cong: if_cong)

lemma load_step_lock:
  assumes "load_step env pc d = Some (pc', d', op)"
  shows "(op = Acquire \<longrightarrow> waits_for_lock (Load_thread env pc) \<and> \<not> load_holds pc \<and> load_holds pc')
   \<and> (op = Release \<longrightarrow> load_holds pc \<and> \<not> load_holds pc')
   \<and> (op = Keep \<longrightarrow> load_holds pc' = load_holds pc)"
  using assms
  by (cases pc) (auto simp: if_distrib [where f = load_holds] split: option.splits sum.splits cong: if_cong)

lemma thread_step_lock:
  assumes "thread_step th d = Some (th', d', op)"
  shows "(op = Acquire \<longrightarrow> waits_for_lock th \<and> \<not> holds_lock th \<and> holds_lock th')
   \<and> (op = Release \<longrightarrow> holds_lock th \<and> \<not> holds_lock th')
   \<and> (op = Keep \<longrightarrow> holds_lock th' = holds_lock th)"
proof (cases th)
  case (Detect_thread env request rid pc)
  with assms obtain pc' where "detect_step env request rid pc d = Some (pc', op)"
    and "th' = Detect_thread env request rid pc'"
    by (auto split: option.splits)
  with Detect_thread detect_step_lock [of env request rid pc d pc' op] show ?thesis
    by simp
next
  case (Load_thread env pc)
  with assms obtain pc' where "load_step env pc d = Some (pc', d', op)"
    and "th' = Load_thread env pc'"
    by (auto split: option.splits)
  with Load_thread load_step_lock [of env pc d pc' d' op] show ?thesis
    by simp
next
  case (Sync_thread classes pc)
  then show ?thesis
    using assms by (cases pc) auto
qed


lemma detect_step_None:
  "(detect_step env request rid pc d = None) = (case pc of D_done reply \<Rightarrow> True | _ \<Rightarrow> False)"
  by (cases pc) (auto split: option.splits sum.splits)

lemma load_step_None:
  "(load_step env pc d = None) = (case pc of L_done ok \<Rightarrow> True | _ \<Rightarrow> False)"
  by (cases pc) (auto split: option.splits sum.splits)

lemma thread_step_None: "(thread_step th d = None) = finished th"
proof (cases th)
  case (Detect_thread env request rid pc)
  then show ?thesis
    using detect_step_None [of env request rid pc d] by (auto split: option.splits)
next
  case (Load_thread env pc)
  then show ?thesis
    using load_step_None [of env pc d] by (auto split: option.splits)
next
  case (Sync_thread classes pc)
  then show ?thesis
    by (cases pc) auto
qed

lemma detect_step_acquire:
  assumes "detect_step env request rid pc d = Some (pc', op)"
  shows "(op = Acquire) = (pc = D_loaded_acquire \<or> pc = D_acquire)"
  using assms by (cases pc) (auto split: option.splits sum.splits)

lemma load_step_acquire:
  assumes "load_step env pc d = Some (pc', d', op)"
  shows "(op = Acquire) = waits_for_lock (Load_thread env pc)"
  using assms by (cases pc) (auto split: option.splits sum.splits)

lemma thread_step_acquire:
  assumes "thread_step th d = Some (th', d', op)"
  shows "(op = Acquire) = waits_for_lock th"
proof (cases th)
  case (Detect_thread env request rid pc)
  with assms obtain pc' where "detect_step env request rid pc d = Some (pc', op)"
    by (auto split: option.splits)
  with Detect_thread detect_step_acquire [of env request rid pc d pc' op] show ?thesis
    by simp
next
  case (Load_thread env pc)
  with assms obtain pc' where "load_step env pc d = Some (pc', d', op)"
    by (auto split: option.splits)
  with Load_thread load_step_acquire [of env pc d pc' d' op] show ?thesis
    by simp
next
  case (Sync_thread classes pc)
  then show ?thesis
    using assms by (cases pc) auto
qed

lemma step_lock_inv:
  assumes "lock_inv s" and "step t s = Some s'"
  shows "lock_inv s'"
proof -
  from assms(2) obtain th' d' op l' where t: "t < length (sys_threads s)"
    and ts: "thread_step (sys_threads s ! t) (sys_detector s) = Some (th', d', op)"
    and la: "lock_after t op (sys_lock s) = Some l'"
    and s': "s' = \<lparr>sys_detector = d', sys_lock = l', sys_threads = (sys_threads s)[t := th']\<rparr>"
    by (auto simp: step_def split: if_splits option.splits)
  note tl = thread_step_lock [OF ts]
  show ?thesis
  proof (cases op)
    case Keep
    then show ?thesis
      using assms(1) t la s' tl
      by (auto simp: lock_inv_def lock_after_def nth_list_update split: option.splits)
  next
    case Acquire
    then show ?thesis
      using assms(1) t la s' tl
      by (auto simp: lock_inv_def lock_after_def nth_list_update split: option.splits if_splits)
  next
    case Release
    then show ?thesis
      using assms(1) t la s' tl
      by (auto simp: lock_inv_def lock_after_def nth_list_update split: option.splits if_splits)
  qed
qed

lemma run_lock_inv:
  "lock_inv s \<Longrightarrow> run sched s = Some s' \<Longrightarrow> lock_inv s'"
  by (induction sched arbitrary: s) (auto split: option.splits dest: step_lock_inv)

lemma initial_lock_inv:
  assumes "initial s"
  shows "lock_inv s"
proof -
  have "at_start th \<Longrightarrow> \<not> holds_lock th" for th
    by (cases th) auto
  with assms show ?thesis
    by (auto simp: initial_def lock_inv_def list_all_length)
qed

lemma step_None_iff:
  assumes "lock_inv s" and "t < length (sys_threads s)"
  shows "(step t s = None) = (finished (sys_threads s ! t) \<or> blocked t s)"
proof (cases "thread_step (sys_threads s ! t) (sys_detector s)")
  case None
  then show ?thesis
    using assms(2) thread_step_None [of "sys_threads s ! t" "sys_detector s"]
    by (simp add: step_def)
next
  case (Some r)
  then obtain th' d' op where r: "thread_step (sys_threads s ! t) (sys_detector s) = Some (th', d', op)"
    by (cases r) auto
  have nf: "\<not> finished (sys_threads s ! t)"
    using r thread_step_None [of "sys_threads s ! t" "sys_detector s"] by simp
  have st: "(step t s = None) = (lock_after t op (sys_lock s) = None)"
    using r assms(2) by (simp add: step_def split: option.splits)
  note tl = thread_step_lock [OF r]
  note ta = thread_step_acquire [OF r]
  have "(lock_after t op (sys_lock s) = None) = blocked t s"
  proof (cases op)
    case Keep
    then show ?thesis
      using ta assms(2) by (simp add: lock_after_def blocked_def)
  next
    case Acquire
    then show ?thesis
      using ta assms(2)
      by (auto simp: lock_after_def blocked_def split: option.splits)
  next
    case Release
    then have "sys_lock s = Some (t, 1)"
      using tl assms by (simp add: lock_inv_def)
    then show ?thesis
      using Release ta by (simp add: lock_after_def blocked_def)
  qed
  with st nf show ?thesis by simp
qed

lemma loading_not_waiting:
  "loading th \<Longrightarrow> \<not> holds_lock th \<and> \<not> waits_for_lock th \<and> \<not> finished th"
  by (cases th) (auto split: load_pc.splits)

lemma in_detect_body_holds: "in_detect_body th \<Longrightarrow> holds_lock th"
  by (cases th) (auto split: detect_pc.splits)

text \<open>
  A thread that runs with no other thread in between computes what the sequential
  function computes: a \<open>Detect\<close> thread ends with the reply of \<open>Detect\<close>, a reload ends
  with the result and the detector of \<open>load_model\<close>.
\<close>

lemma step_single:
  "step 0 \<lparr>sys_detector = d, sys_lock = l, sys_threads = [th]\<rparr> =
     (case thread_step th d of
        None \<Rightarrow> None
      | Some (th', d', op) \<Rightarrow>
          (case lock_after 0 op l of
             None \<Rightarrow> None
           | Some l' \<Rightarrow> Some \<lparr>sys_detector = d', sys_lock = l', sys_threads = [th']\<rparr>))"
  by (simp add: step_def split: option.splits)

lemma load_thread_alone:
  "steps 8 0 \<lparr>sys_detector = d, sys_lock = None, sys_threads = [Load_thread env L_exists]\<rparr>
   = \<lparr>sys_detector = snd (load_model env d), sys_lock = None,
      sys_threads = [Load_thread env (L_done (fst (load_model env d)))]\<rparr>"
proof (cases "path_exists env")
  case False
  then show ?thesis
    by (simp add: numeral_eq_Suc step_single lock_after_def load_model_def)
next
  case True
  note ex = this
  show ?thesis
  proof (cases "yolo_ctor env")
    case (Inl e)
    then show ?thesis
      using ex by (simp add: numeral_eq_Suc step_single lock_after_def load_model_def)
  next
    case (Inr new_model)
    note ctor = this
    show ?thesis
    proof (cases "warmup_predict env")
      case (Inl e)
      then show ?thesis
        using ex ctor by (simp add: numeral_eq_Suc step_single lock_after_def load_model_def)
    next
      case (Inr u)
      note warm = this
      show ?thesis
      proof (cases "compute_version env")
        case (Inl e)
        then show ?thesis
          using ex ctor warm
          by (simp add: numeral_eq_Suc step_single lock_after_def load_model_def Let_def)
      next
        case (Inr v)
        then show ?thesis
          using ex ctor warm
          by (simp add: numeral_eq_Suc step_single lock_after_def load_model_def Let_def)
      qed
    qed
  qed
qed

lemma detect_thread_alone:
  "steps 6 0 \<lparr>sys_detector = d, sys_lock = None,
               sys_threads = [Detect_thread env request rid D_loaded_acquire]\<rparr>
   = \<lparr>sys_detector = d, sys_lock = None,
      sys_threads = [Detect_thread env request rid (D_done (Detect env d request rid))]\<rparr>"
proof (cases "self_model d")
  case None
  then show ?thesis
    by (simp add: numeral_eq_Suc step_single lock_after_def Detect_def
        model_loaded_def unavailable_reply_def)
next
  case (Some m)
  note model = this
  show ?thesis
  proof (cases "image_open env (req_image request)")
    case (Inl e)
    then show ?thesis
      using model
      by (simp add: numeral_eq_Suc step_single lock_after_def Detect_def
          model_loaded_def detect_def Let_def)
  next
    case (Inr img)
    note image = this
    show ?thesis
    proof (cases "predict env m img
                    (py_or (if req_confidence_threshold request > 0
                            then Some (req_confidence_threshold request) else None)
                       (default_confidence (config d)))
                    (py_or (if req_iou_threshold request > 0
                            then Some (req_iou_threshold request) else None)
                       (default_iou (config d)))
                    (input_size (config d))")
      case (Inl e)
      then show ?thesis
        using model image
        by (simp add: numeral_eq_Suc step_single lock_after_def Detect_def
            model_loaded_def detect_def run_inference_def Let_def)
    next
      case (Inr results)
      note pred = this
      show ?thesis
      proof (cases "parse_results d m img results")
        case (Inl e)
        then show ?thesis
          using model image pred
          by (simp add: numeral_eq_Suc step_single lock_after_def Detect_def
              model_loaded_def detect_def run_inference_def Let_def)
      next
        case (Inr dets)
        then show ?thesis
          using model image pred
          by (simp add: numeral_eq_Suc step_single lock_after_def Detect_def
              model_loaded_def detect_def run_inference_def Let_def)
      qed
    qed
  qed
qed

text \<open>
  Claim C1, as amended.  In every state that a schedule reaches from an initial
  state: the owner of the model lock is the one thread inside a locked block, so no
  two threads are inside locked blocks at once, and in particular no two \<open>Detect\<close>
  calls are inside the body of \<open>detect\<close> at once (the lock is held from line 210 to
  the return of \<open>detect\<close>, through decoding, inference and parsing); a reload in its
  load-and-warm-up step holds no lock and always has a step to take; a thread has no
  step to take only when its call has returned or when it stands in front of a locked
  block while another thread owns the lock, and that owner is inside a locked block
  and is never a reload in its load-and-warm-up step.
\<close>

theorem model_lock_discipline:
  assumes "initial s0" and "run sched s0 = Some s"
    and "t < length (sys_threads s)" and "u < length (sys_threads s)"
  shows "(holds_lock (sys_threads s ! t) \<longleftrightarrow> sys_lock s = Some (t, 1))
       \<and> (t \<noteq> u \<longrightarrow> \<not> (holds_lock (sys_threads s ! t) \<and> holds_lock (sys_threads s ! u)))
       \<and> (t \<noteq> u \<longrightarrow> \<not> (in_detect_body (sys_threads s ! t) \<and> in_detect_body (sys_threads s ! u)))
       \<and> (loading (sys_threads s ! t) \<longrightarrow> \<not> holds_lock (sys_threads s ! t) \<and> step t s \<noteq> None)
       \<and> ((step t s = None) = (finished (sys_threads s ! t) \<or> blocked t s))
       \<and> (blocked t s \<longrightarrow>
            (\<exists>v < length (sys_threads s). v \<noteq> t \<and> sys_lock s = Some (v, 1)
                \<and> holds_lock (sys_threads s ! v) \<and> \<not> loading (sys_threads s ! v)))"
proof -
  have inv: "lock_inv s"
    using assms(1) assms(2) initial_lock_inv run_lock_inv by blast
  have a: "holds_lock (sys_threads s ! t) \<longleftrightarrow> sys_lock s = Some (t, 1)"
    using inv assms(3) by (simp add: lock_inv_def)
  have a': "holds_lock (sys_threads s ! u) \<longleftrightarrow> sys_lock s = Some (u, 1)"
    using inv assms(4) by (simp add: lock_inv_def)
  have b: "t \<noteq> u \<longrightarrow> \<not> (holds_lock (sys_threads s ! t) \<and> holds_lock (sys_threads s ! u))"
    using a a' by auto
  have b': "t \<noteq> u \<longrightarrow> \<not> (in_detect_body (sys_threads s ! t) \<and> in_detect_body (sys_threads s ! u))"
    using b in_detect_body_holds by blast
  have e: "(step t s = None) = (finished (sys_threads s ! t) \<or> blocked t s)"
    using step_None_iff [OF inv assms(3)] .
  have c: "loading (sys_threads s ! t) \<longrightarrow> \<not> holds_lock (sys_threads s ! t) \<and> step t s \<noteq> None"
    using e loading_not_waiting [of "sys_threads s ! t"] by (auto simp: blocked_def)
  have f: "blocked t s \<longrightarrow>
            (\<exists>v < length (sys_threads s). v \<noteq> t \<and> sys_lock s = Some (v, 1)
                \<and> holds_lock (sys_threads s ! v) \<and> \<not> loading (sys_threads s ! v))"
  proof
    assume "blocked t s"
    then obtain v depth where l: "sys_lock s = Some (v, depth)" and vt: "v \<noteq> t"
      by (auto simp: blocked_def split: option.splits)
    with inv have v: "v < length (sys_threads s)" and dp: "depth = 1"
      by (auto simp: lock_inv_def)
    with inv l have h: "holds_lock (sys_threads s ! v)"
      by (simp add: lock_inv_def)
    with loading_not_waiting [of "sys_threads s ! v"] have "\<not> loading (sys_threads s ! v)"
      by auto
    with l vt v dp h show "\<exists>v < length (sys_threads s). v \<noteq> t \<and> sys_lock s = Some (v, 1)
                \<and> holds_lock (sys_threads s ! v) \<and> \<not> loading (sys_threads s ! v)"
      by auto
  qed
  show ?thesis
    using a b b' c e f by blast
qed

lemma two_detects_run:
  "run [1, 1, 0, 0, 0] two_detects =
     Some \<lparr>sys_detector = detector_a, sys_lock = Some (0, 1),
      sys_threads = [Detect_thread one_box_env example_request ''00000001'' D_inference,
                     Detect_thread one_box_env example_request ''00000002'' D_acquire]\<rparr>"
  by (simp add: two_detects_def step_def lock_after_def model_loaded_def detector_a_eq)

lemma detect_and_reload_run:
  "run [0, 0, 0, 1, 1] detect_and_reload =
     Some \<lparr>sys_detector = detector_a, sys_lock = Some (0, 1),
      sys_threads = [Detect_thread one_box_env example_request ''00000001'' D_inference,
                     Load_thread load_stat_fails_b (L_warmup model_b)]\<rparr>"
  by (simp add: detect_and_reload_def step_def lock_after_def model_loaded_def detector_a_eq
      load_stat_fails_b_def)

text \<open>
  The claim as stated fails: two \<open>Detect\<close> calls on one detector, both past the
  \<open>model_loaded\<close> check.  The first has entered \<open>detect\<close> and owns the lock, with its
  inference still to run; the second stands at line 210 and has no step to take
  until the first has left \<open>detect\<close>.
\<close>

theorem detect_blocks_detect_counterexample:
  "initial two_detects
   \<and> run [1, 1, 0, 0, 0] two_detects \<noteq> None
   \<and> sys_threads (the (run [1, 1, 0, 0, 0] two_detects)) ! 0
       = Detect_thread one_box_env example_request ''00000001'' D_inference
   \<and> sys_threads (the (run [1, 1, 0, 0, 0] two_detects)) ! 1
       = Detect_thread one_box_env example_request ''00000002'' D_acquire
   \<and> sys_lock (the (run [1, 1, 0, 0, 0] two_detects)) = Some (0, 1)
   \<and> blocked 1 (the (run [1, 1, 0, 0, 0] two_detects))
   \<and> step 1 (the (run [1, 1, 0, 0, 0] two_detects)) = None"
  unfolding two_detects_run
  by (simp add: two_detects_def initial_def blocked_def step_def lock_after_def)

theorem model_lock_discipline_witness:
  "initial detect_and_reload
   \<and> run [0, 0, 0, 1, 1] detect_and_reload \<noteq> None
   \<and> loading (sys_threads (the (run [0, 0, 0, 1, 1] detect_and_reload)) ! 1)
   \<and> in_detect_body (sys_threads (the (run [0, 0, 0, 1, 1] detect_and_reload)) ! 0)
   \<and> sys_lock (the (run [0, 0, 0, 1, 1] detect_and_reload)) = Some (0, 1)
   \<and> \<not> holds_lock (sys_threads (the (run [0, 0, 0, 1, 1] detect_and_reload)) ! 1)
   \<and> step 1 (the (run [0, 0, 0, 1, 1] detect_and_reload)) \<noteq> None
   \<and> \<not> blocked 1 (the (run [0, 0, 0, 1, 1] detect_and_reload))"
proof -
  define s where "s = \<lparr>sys_detector = detector_a, sys_lock = Some (0, 1),
      sys_threads = [Detect_thread one_box_env example_request ''00000001'' D_inference,
                     Load_thread load_stat_fails_b (L_warmup model_b)]\<rparr>"
  have i: "initial detect_and_reload"
    by (simp add: initial_def detect_and_reload_def)
  have r: "run [0, 0, 0, 1, 1] detect_and_reload = Some s"
    unfolding s_def by (rule detect_and_reload_run)
  have t: "1 < length (sys_threads s)" and u: "0 < length (sys_threads s)"
    by (simp_all add: s_def)
  have l: "loading (sys_threads s ! 1)" "in_detect_body (sys_threads s ! 0)"
    "sys_lock s = Some (0, 1)"
    by (simp_all add: s_def)
  have f: "\<not> finished (sys_threads s ! 1)"
    by (simp add: s_def)
  note d = model_lock_discipline [OF i r t u]
  from d l(1) have n: "\<not> holds_lock (sys_threads s ! 1)" and st: "step 1 s \<noteq> None"
    by blast+
  from d st have nb: "\<not> blocked 1 s"
    by blast
  show ?thesis
    unfolding r option.sel
    using i l n st nb by simp
qed

end
